theory Spec2Isabelle
  imports Main
begin

section \<open>Data model of \<^verbatim>\<open>backend/ai_generator.py\<close>\<close>

text \<open>
  The module is a bounded negotiation loop between a Model Client
  (\<^verbatim>\<open>self.client.messages.create\<close>) and a tool executor
  (\<^verbatim>\<open>tool_manager.execute_tool\<close>). Both are external collaborators: they are
  parameters of the model, functions on an arbitrary world state \<open>'w\<close> that is threaded
  through every call in program order. Python strings are byte lists (UTF-8).
\<close>

datatype json =
    JNull
  | JBool bool
  | JInt int
  | JString string
  | JArray "json list"
  | JObject "(string \<times> json) list"

text \<open>\<^verbatim>\<open>content_block.input\<close>: the decoded arguments, passed on as keyword arguments.\<close>

type_synonym tool_input = "(string \<times> json) list"

text \<open>
  A content block of a response. The attribute \<^verbatim>\<open>type\<close> is the tag; a text block has
  \<^verbatim>\<open>text\<close>, a tool-use block has \<^verbatim>\<open>id\<close>, \<^verbatim>\<open>name\<close> and \<^verbatim>\<open>input\<close> and no
  \<^verbatim>\<open>text\<close>.
\<close>

datatype content_block =
    Text string
  | ToolUse string string tool_input

fun block_type :: "content_block \<Rightarrow> string" where
  "block_type (Text t) = ''text''"
| "block_type (ToolUse i n a) = ''tool_use''"

record response =
  stop_reason :: string
  content :: "content_block list"

text \<open>The dict \<^verbatim>\<open>{"type": "tool_result", "tool_use_id": ..., "content": ...}\<close>.\<close>

record tool_result =
  result_type :: string
  tool_use_id :: string
  result_content :: string

text \<open>
  The value under \<^verbatim>\<open>"content"\<close> of a message: the query string, the content list of
  a response, or the list of tool results of a round.
\<close>

datatype message_content =
    Plain string
  | Blocks "content_block list"
  | Results "tool_result list"

record message =
  role :: string
  msg_content :: message_content

record tool_spec =
  tool_name :: string
  description :: string
  input_schema :: json

record tool_choice =
  choice_type :: string

text \<open>
  \<^verbatim>\<open>self.base_params\<close> and the parameter dicts built from it by
  \<^verbatim>\<open>{**self.base_params, ...}\<close>. A key that the dict does not hold is \<open>None\<close>.
\<close>

record base_params_dict =
  model :: string
  temperature :: int
  max_tokens :: int

record api_params_dict = base_params_dict +
  messages :: "message list"
  system :: string
  tools :: "tool_spec list option"
  tool_choice_param :: "tool_choice option"

text \<open>
  Exceptions that can leave \<^verbatim>\<open>generate_response\<close>: a failure raised by the Model
  Client, and the two failures of the read \<^verbatim>\<open>response.content[0].text\<close>.
\<close>

datatype error =
    ModelClientError string
  | IndexError
  | AttributeError

text \<open>
  The outcome of one \<^verbatim>\<open>execute_tool\<close> call: the string it returns, or an
  \<^verbatim>\<open>Exception\<close> \<open>e\<close> raised, carried as \<^verbatim>\<open>str(e)\<close>.
\<close>

datatype tool_outcome =
    Returned string
  | Raised string

type_synonym 'w model_client = "api_params_dict \<Rightarrow> 'w \<Rightarrow> (error + response) \<times> 'w"

type_synonym 'w tool_manager = "string \<Rightarrow> tool_input \<Rightarrow> 'w \<Rightarrow> tool_outcome \<times> 'w"

record 'w AIGenerator =
  client :: "'w model_client"
  self_model :: string
  base_params :: base_params_dict

text \<open>\<^verbatim>\<open>__init__\<close>, with the client object it constructs taken as an argument.\<close>

definition init :: "'w model_client \<Rightarrow> string \<Rightarrow> 'w AIGenerator" where
  "init cl m =
     \<lparr>client = cl, self_model = m,
      base_params = \<lparr>model = m, temperature = 0, max_tokens = 800\<rparr>\<rparr>"

subsection \<open>The record of calls\<close>

text \<open>
  What a mock of the two collaborators records: every \<^verbatim>\<open>messages.create\<close> call with
  its parameters and outcome, labelled with the place in the source that issued it
  (line 88, line 158 or line 174), and every \<^verbatim>\<open>execute_tool\<close> call with its arguments.
  The label and the two lists are bookkeeping; the program does not read them.
\<close>

datatype call_site = InitialCall | FinalCall | NextCall

record api_call =
  site :: call_site
  params :: api_params_dict
  outcome :: "error + response"

record 'w state =
  world :: 'w
  api_calls :: "api_call list"
  tool_calls :: "(string \<times> tool_input) list"

text \<open>
  The \<^verbatim>\<open>return\<close> statement a result came from (lines 95, 159, 178, 184); the Python
  value returned is the string beside it.
\<close>

datatype exit_point = DirectReturn | FinalReturn | NextReturn | FallbackReturn

type_synonym 'w result = "(error + exit_point \<times> string) \<times> 'w state"

section \<open>The program\<close>

definition newline :: char where
  "newline = CHR 0x0A"

definition SYSTEM_PROMPT :: string where
  \<open>SYSTEM_PROMPT = concat (map (\<lambda>l. l @ [newline])
   ['' You are an AI assistant specialized in course materials and educational content with access to comprehensive search tools for course information.'',
    '''',
    ''Search Tool Usage:'',
    ''- Use the search_course_content tool for questions about specific course content or detailed educational materials'',
    ''- Use the get_course_outline tool for questions about course structure, lesson lists, or course overviews'',
    ''- **You can make up to 2 tool calls per query** when needed for complex questions'',
    ''- Use sequential tool calls when you need to:'',
    ''  1. First gather information with one tool (e.g., get a course outline)'',
    ''  2. Then use that information with another tool (e.g., search for related content)'',
    ''- Synthesize search results into accurate, fact-based responses'',
    ''- If search yields no results, state this clearly without offering alternatives'',
    '''',
    ''Response Protocol:'',
    ''- **General knowledge questions**: Answer using existing knowledge without searching'',
    ''- **Course-specific questions**: Search first, then answer'',
    ''- **Course outline questions**: Use the course outline tool and include all course details (title, link, lesson numbers and titles)'',
    ''- **Complex multi-part questions**: Use sequential tool calls when one search is insufficient'',
    ''- **No meta-commentary**:'',
    ''  - Provide direct answers only ''
       @ [CHR 0xC3, CHR 0xA2, CHR 0xE2, CHR 0x82, CHR 0xAC, CHR 0xE2, CHR 0x80, CHR 0x9D]
       @ '' no reasoning process, search explanations, or question-type analysis'',
    ''  - Do not mention '' @ [CHR 0x22] @ ''based on the search results'' @ [CHR 0x22],
    '''',
    ''All responses must be:'',
    ''1. **Brief, Concise and focused** - Get to the point quickly'',
    ''2. **Educational** - Maintain instructional value'',
    ''3. **Clear** - Use accessible language'',
    ''4. **Example-supported** - Include relevant examples when they aid understanding'',
    ''Provide only the direct answer to what was asked.''])\<close>

text \<open>\<^verbatim>\<open>response.content[0].text\<close>, with the two ways the read can raise.\<close>

fun content0_text :: "content_block list \<Rightarrow> error + string" where
  "content0_text [] = Inl IndexError"
| "content0_text (Text t # bs) = Inr t"
| "content0_text (ToolUse i n a # bs) = Inl AttributeError"

text \<open>\<^verbatim>\<open>return response.content[0].text\<close> at the return statement \<open>x\<close>.\<close>

definition return_text :: "exit_point \<Rightarrow> response \<Rightarrow> error + exit_point \<times> string" where
  "return_text x r =
     (case content0_text (content r) of Inl e \<Rightarrow> Inl e | Inr t \<Rightarrow> Inr (x, t))"

text \<open>\<^verbatim>\<open>self.client.messages.create(**p)\<close>, recorded.\<close>

definition messages_create ::
  "'w AIGenerator \<Rightarrow> call_site \<Rightarrow> api_params_dict \<Rightarrow> 'w state \<Rightarrow> (error + response) \<times> 'w state"
where
  "messages_create self s p st =
     (case client self p (world st) of
        (r, w') \<Rightarrow>
          (r, st\<lparr>world := w',
                 api_calls := api_calls st @ [\<lparr>site = s, params = p, outcome = r\<rparr>]\<rparr>))"

text \<open>
  The body of the \<^verbatim>\<open>for content_block in initial_response.content\<close> loop (lines
  126 to 142), on the triple of \<^verbatim>\<open>tool_results\<close>, \<^verbatim>\<open>has_tool_calls\<close> and the state.
  The \<^verbatim>\<open>try\<close> turns an exception of the executor into the result string.
\<close>

fun tool_step ::
  "'w tool_manager \<Rightarrow> content_block \<Rightarrow> tool_result list \<times> bool \<times> 'w state
     \<Rightarrow> tool_result list \<times> bool \<times> 'w state"
where
  "tool_step tm (Text t) acc = acc"
| "tool_step tm (ToolUse i n a) (tool_results, has_tool_calls, st) =
     (case tm n a (world st) of
        (out, w') \<Rightarrow>
          (let tool_result =
                 (case out of
                    Returned s \<Rightarrow> s
                  | Raised e \<Rightarrow> ''Error executing tool: '' @ e)
           in (tool_results @
                 [\<lparr>result_type = ''tool_result'', tool_use_id = i, result_content = tool_result\<rparr>],
               True,
               st\<lparr>world := w', tool_calls := tool_calls st @ [(n, a)]\<rparr>)))"

fun execute_tool_calls ::
  "'w tool_manager \<Rightarrow> content_block list \<Rightarrow> tool_result list \<times> bool \<times> 'w state
     \<Rightarrow> tool_result list \<times> bool \<times> 'w state"
where
  "execute_tool_calls tm [] acc = acc"
| "execute_tool_calls tm (b # bs) acc = execute_tool_calls tm bs (tool_step tm b acc)"

text \<open>
  The transcript after lines 120 to 146 of one round: the assistant message, then the
  user message of tool results when there is any.
\<close>

definition round_messages :: "message list \<Rightarrow> response \<Rightarrow> tool_result list \<Rightarrow> message list" where
  "round_messages msgs initial_response tool_results =
     (let msgs1 = msgs @ [\<lparr>role = ''assistant'', msg_content = Blocks (content initial_response)\<rparr>]
      in if tool_results \<noteq> []
         then msgs1 @ [\<lparr>role = ''user'', msg_content = Results tool_results\<rparr>]
         else msgs1)"

text \<open>\<^verbatim>\<open>final_params\<close> (lines 151 to 155): no \<^verbatim>\<open>tools\<close>, no \<^verbatim>\<open>tool_choice\<close>.\<close>

definition final_params :: "'w AIGenerator \<Rightarrow> message list \<Rightarrow> string \<Rightarrow> api_params_dict" where
  "final_params self msgs sys =
     \<lparr>model = model (base_params self), temperature = temperature (base_params self),
      max_tokens = max_tokens (base_params self),
      messages = msgs, system = sys, tools = None, tool_choice_param = None\<rparr>"

text \<open>\<^verbatim>\<open>if tools:\<close> holds of a list that is neither \<^verbatim>\<open>None\<close> nor empty.\<close>

fun truthy_list :: "'a list option \<Rightarrow> bool" where
  "truthy_list None = False"
| "truthy_list (Some xs) = (xs \<noteq> [])"

text \<open>\<^verbatim>\<open>next_params\<close> (lines 162 to 171).\<close>

definition next_params ::
  "'w AIGenerator \<Rightarrow> message list \<Rightarrow> string \<Rightarrow> tool_spec list option \<Rightarrow> api_params_dict"
where
  "next_params self msgs sys tls =
     (let p = final_params self msgs sys
      in if truthy_list tls
         then p\<lparr>tools := tls, tool_choice_param := Some \<lparr>choice_type = ''auto''\<rparr>\<rparr>
         else p)"

definition fallback_text :: string where
  "fallback_text = ''Maximum tool calling rounds reached without final response.''"

text \<open>
  One pass through the body of the \<^verbatim>\<open>while\<close> loop of
  \<^verbatim>\<open>_handle_tool_execution\<close> (lines 119 to 181): it leaves the function (a
  \<^verbatim>\<open>return\<close>, or an exception of the Model Client or of the read of the text), or it
  goes round again with the new \<^verbatim>\<open>initial_response\<close>, the grown \<^verbatim>\<open>messages\<close> and
  the state. \<open>sys\<close> is \<^verbatim>\<open>base_params["system"]\<close>.
\<close>

datatype 'w round_outcome =
    Exit "'w result"
  | Again response "message list" "'w state"

definition negotiation_round ::
  "'w AIGenerator \<Rightarrow> 'w tool_manager \<Rightarrow> tool_spec list option \<Rightarrow> int \<Rightarrow> string
     \<Rightarrow> response \<Rightarrow> message list \<Rightarrow> int \<Rightarrow> 'w state \<Rightarrow> 'w round_outcome"
where
  "negotiation_round self tm tls max_rounds sys initial_response msgs current_round st =
     (case execute_tool_calls tm (content initial_response) ([], False, st) of
        (tool_results, has_tool_calls, st1) \<Rightarrow>
          (let msgs' = round_messages msgs initial_response tool_results
           in if \<not> has_tool_calls \<or> current_round \<ge> max_rounds then
                (case messages_create self FinalCall (final_params self msgs' sys) st1 of
                   (Inl e, st2) \<Rightarrow> Exit (Inl e, st2)
                 | (Inr final_response, st2) \<Rightarrow>
                     Exit (return_text FinalReturn final_response, st2))
              else
                (case messages_create self NextCall (next_params self msgs' sys tls) st1 of
                   (Inl e, st2) \<Rightarrow> Exit (Inl e, st2)
                 | (Inr r, st2) \<Rightarrow>
                     if stop_reason r \<noteq> ''tool_use''
                     then Exit (return_text NextReturn r, st2)
                     else Again r msgs' st2)))"

text \<open>
  The loop itself: \<^verbatim>\<open>while current_round <= max_rounds\<close>, with
  \<^verbatim>\<open>current_round += 1\<close> at the end of the body and the fallback of line 184 after it.
\<close>

function tool_loop ::
  "'w AIGenerator \<Rightarrow> 'w tool_manager \<Rightarrow> tool_spec list option \<Rightarrow> int \<Rightarrow> string
     \<Rightarrow> response \<Rightarrow> message list \<Rightarrow> int \<Rightarrow> 'w state \<Rightarrow> 'w result"
where
  "tool_loop self tm tls max_rounds sys initial_response msgs current_round st =
     (if current_round \<le> max_rounds then
        (case negotiation_round self tm tls max_rounds sys initial_response msgs current_round st of
           Exit res \<Rightarrow> res
         | Again r msgs' st2 \<Rightarrow>
             tool_loop self tm tls max_rounds sys r msgs' (current_round + 1) st2)
      else (Inr (FallbackReturn, fallback_text), st))"
  by pat_completeness auto
termination
  by (relation "measure (\<lambda>(self, tm, tls, max_rounds, sys, r, msgs, current_round, st).
                   nat (max_rounds + 1 - current_round))") auto

text \<open>
  \<^verbatim>\<open>_handle_tool_execution\<close>: the loop from \<^verbatim>\<open>base_params["messages"].copy()\<close> and
  round 1.
\<close>

definition handle_tool_execution ::
  "'w AIGenerator \<Rightarrow> response \<Rightarrow> api_params_dict \<Rightarrow> 'w tool_manager \<Rightarrow> tool_spec list option
     \<Rightarrow> int \<Rightarrow> 'w state \<Rightarrow> 'w result"
where
  "handle_tool_execution self initial_response bp tm tls max_rounds st =
     tool_loop self tm tls max_rounds (system bp) initial_response (messages bp) 1 st"

text \<open>\<^verbatim>\<open>if conversation_history\<close> holds of a string that is neither \<^verbatim>\<open>None\<close> nor empty.\<close>

definition system_content :: "string option \<Rightarrow> string" where
  "system_content conversation_history =
     (case conversation_history of
        None \<Rightarrow> SYSTEM_PROMPT
      | Some h \<Rightarrow>
          if h \<noteq> []
          then SYSTEM_PROMPT @ [newline, newline] @ ''Previous conversation:'' @ [newline] @ h
          else SYSTEM_PROMPT)"

text \<open>\<^verbatim>\<open>api_params\<close> of the first request (lines 76 to 85).\<close>

definition initial_params ::
  "'w AIGenerator \<Rightarrow> string \<Rightarrow> string option \<Rightarrow> tool_spec list option \<Rightarrow> api_params_dict"
where
  "initial_params self query conversation_history tls =
     (let api_params =
            \<lparr>model = model (base_params self), temperature = temperature (base_params self),
             max_tokens = max_tokens (base_params self),
             messages = [\<lparr>role = ''user'', msg_content = Plain query\<rparr>],
             system = system_content conversation_history,
             tools = None, tool_choice_param = None\<rparr>
      in if truthy_list tls
         then api_params\<lparr>tools := tls, tool_choice_param := Some \<lparr>choice_type = ''auto''\<rparr>\<rparr>
         else api_params)"

definition generate_response ::
  "'w AIGenerator \<Rightarrow> string \<Rightarrow> string option \<Rightarrow> tool_spec list option
     \<Rightarrow> 'w tool_manager option \<Rightarrow> int \<Rightarrow> 'w state \<Rightarrow> 'w result"
where
  "generate_response self query conversation_history tls tool_manager max_tool_rounds st =
     (let api_params = initial_params self query conversation_history tls
      in case messages_create self InitialCall api_params st of
           (Inl e, st1) \<Rightarrow> (Inl e, st1)
         | (Inr response, st1) \<Rightarrow>
             (case (stop_reason response = ''tool_use'', tool_manager) of
                (True, Some tm) \<Rightarrow>
                  handle_tool_execution self response api_params tm tls max_tool_rounds st1
              | _ \<Rightarrow> (return_text DirectReturn response, st1)))"

section \<open>Vocabulary of the properties\<close>

text \<open>The tool-use blocks of a content list, in order, as (id, name, input).\<close>

fun tool_uses :: "content_block list \<Rightarrow> (string \<times> string \<times> tool_input) list" where
  "tool_uses [] = []"
| "tool_uses (Text t # bs) = tool_uses bs"
| "tool_uses (ToolUse i n a # bs) = (i, n, a) # tool_uses bs"

text \<open>The state in which a pass through the loop body ends.\<close>

fun outcome_state :: "'w round_outcome \<Rightarrow> 'w state" where
  "outcome_state (Exit res) = snd res"
| "outcome_state (Again r msgs st) = st"

text \<open>The record of the first \<^verbatim>\<open>messages.create\<close> call (line 88) with outcome \<open>r\<close>.\<close>

definition first_call ::
  "'w AIGenerator \<Rightarrow> string \<Rightarrow> string option \<Rightarrow> tool_spec list option \<Rightarrow> error + response
     \<Rightarrow> api_call"
where
  "first_call self q h tls r =
     \<lparr>site = InitialCall, params = initial_params self q h tls, outcome = r\<rparr>"

text \<open>
  A transcript whose roles are user, assistant, user, ... (\<open>roles_from True\<close>) or
  assistant, user, assistant, ... (\<open>roles_from False\<close>).
\<close>

fun roles_from :: "bool \<Rightarrow> message list \<Rightarrow> bool" where
  "roles_from u [] = True"
| "roles_from u (m # ms) =
     (role m = (if u then ''user'' else ''assistant'') \<and> roles_from (\<not> u) ms)"

definition strictly_alternating :: "message list \<Rightarrow> bool" where
  "strictly_alternating ms = roles_from True ms"


text \<open>
  A Model Client that never fails and whose response begins with a text block whenever
  the program reads its text: when the stop reason is not \<^verbatim>\<open>tool_use\<close>, and when
  the request carried no tools.
\<close>

definition answers_with_text :: "'w model_client \<Rightarrow> bool" where
  "answers_with_text cl \<longleftrightarrow>
     (\<forall>p w. case fst (cl p w) of
        Inl e \<Rightarrow> False
      | Inr r \<Rightarrow> (stop_reason r \<noteq> ''tool_use'' \<or> tools p = None \<longrightarrow>
                   (\<exists>t bs. content r = Text t # bs)))"

text \<open>Collaborators that are functions of their inputs: the world does not matter.\<close>

definition stateless_client :: "'w model_client \<Rightarrow> bool" where
  "stateless_client cl \<longleftrightarrow> (\<forall>p w w'. fst (cl p w) = fst (cl p w'))"

definition stateless_executor :: "'w tool_manager \<Rightarrow> bool" where
  "stateless_executor tm \<longleftrightarrow> (\<forall>n a w w'. fst (tm n a w) = fst (tm n a w'))"

text \<open>The result block of line 138 for the tool-use block (i, n, a) run in world \<open>w\<close>.\<close>

definition result_for :: "'w tool_manager \<Rightarrow> 'w \<Rightarrow> string \<times> string \<times> tool_input \<Rightarrow> tool_result" where
  "result_for tm w u =
     (case u of
        (i, n, a) \<Rightarrow>
          \<lparr>result_type = ''tool_result'', tool_use_id = i,
           result_content =
             (case fst (tm n a w) of
                Returned s \<Rightarrow> s
              | Raised e \<Rightarrow> ''Error executing tool: '' @ e)\<rparr>)"

text \<open>
  What one pass through the loop body does, in terms of the one Model Client call \<open>c\<close>
  it makes, the tool results \<open>results\<close> it collects and the state \<open>st1\<close> after the tools.
\<close>

definition round_post ::
  "'w AIGenerator \<Rightarrow> tool_spec list option \<Rightarrow> int \<Rightarrow> string \<Rightarrow> response \<Rightarrow> message list
     \<Rightarrow> int \<Rightarrow> 'w state \<Rightarrow> 'w round_outcome \<Rightarrow> api_call \<Rightarrow> tool_result list \<Rightarrow> 'w state \<Rightarrow> bool"
where
  "round_post self tls mx sys r0 msgs cur st out c results st1 \<longleftrightarrow>
     api_calls (outcome_state out) = api_calls st @ [c] \<and>
     tool_calls (outcome_state out) =
       tool_calls st @ map (\<lambda>(i, n, a). (n, a)) (tool_uses (content r0)) \<and>
     api_calls st1 = api_calls st \<and>
     tool_calls st1 = tool_calls (outcome_state out) \<and>
     map tool_use_id results = map fst (tool_uses (content r0)) \<and>
     params c = (if site c = FinalCall
                 then final_params self (round_messages msgs r0 results) sys
                 else next_params self (round_messages msgs r0 results) sys tls) \<and>
     client self (params c) (world st1) = (outcome c, world (outcome_state out)) \<and>
     (site c = FinalCall \<or> site c = NextCall) \<and>
     (site c = FinalCall \<longleftrightarrow> (tool_uses (content r0) = [] \<or> mx \<le> cur)) \<and>
     (case out of
        Again r m s \<Rightarrow>
          m = round_messages msgs r0 results \<and> results \<noteq> [] \<and> cur < mx \<and>
          outcome c = Inr r \<and> stop_reason r = ''tool_use'' \<and> site c = NextCall
      | Exit (res, s) \<Rightarrow>
          (case outcome c of
             Inl e \<Rightarrow> res = Inl e
           | Inr resp \<Rightarrow>
               res = return_text (if site c = FinalCall then FinalReturn else NextReturn) resp \<and>
               (site c = NextCall \<longrightarrow> stop_reason resp \<noteq> ''tool_use'')))"

text \<open>
  What the loop does from round \<open>cur\<close>, in terms of the Model Client calls \<open>new\<close> it
  makes and its result \<open>res\<close>.
\<close>

definition loop_post ::
  "'w AIGenerator \<Rightarrow> int \<Rightarrow> int \<Rightarrow> string \<Rightarrow> error + exit_point \<times> string \<Rightarrow> api_call list
     \<Rightarrow> bool"
where
  "loop_post self mx cur sys res new \<longleftrightarrow>
     int (length new) \<le> max 0 (mx + 1 - cur) \<and>
     (\<forall>c \<in> set new.
        system (params c) = sys \<and> site c \<noteq> InitialCall \<and>
        (\<exists>w. fst (client self (params c) w) = outcome c) \<and>
        (site c = FinalCall \<longrightarrow> tools (params c) = None \<and> tool_choice_param (params c) = None)) \<and>
     (\<forall>c \<in> set (butlast new). site c = NextCall) \<and>
     (cur \<le> mx \<longrightarrow>
        new \<noteq> [] \<and>
        (site (last new) = NextCall \<longrightarrow> int (length new) \<le> mx - cur) \<and>
        (case res of
           Inl e \<Rightarrow>
             outcome (last new) = Inl e \<or>
             (\<exists>resp. outcome (last new) = Inr resp \<and>
                content0_text (content resp) = Inl e \<and>
                (site (last new) = NextCall \<longrightarrow> stop_reason resp \<noteq> ''tool_use''))
         | Inr (x, t) \<Rightarrow>
             x \<noteq> FallbackReturn \<and> x \<noteq> DirectReturn \<and>
             (x = FinalReturn \<longleftrightarrow> site (last new) = FinalCall) \<and>
             (\<exists>resp. outcome (last new) = Inr resp \<and> content0_text (content resp) = Inr t))) \<and>
     (\<not> cur \<le> mx \<longrightarrow> new = [] \<and> res = Inr (FallbackReturn, fallback_text))"

text \<open>
  The negotiation as the Model Client and the tool executor see it. For the tool-use
  response \<open>r\<close> handled in round \<open>cur\<close> with the transcript \<open>msgs\<close>, the Model Client
  calls \<open>cs\<close> and the tool invocations \<open>tcs\<close> that follow are these: if the rounds are
  used up (\<open>R < cur\<close>), none. Otherwise the executor is invoked for the tool-use blocks
  of \<open>r\<close>, in order; then one call is made, whose transcript is \<open>msgs\<close>, the assistant
  message holding the content of \<open>r\<close> and, when \<open>r\<close> has tool-use blocks, one user
  message of results with the ids of those blocks. When \<open>r\<close> has no tool-use block or
  this is the last round, that call carries no tools and nothing follows it. Otherwise
  it carries the tools of the request, and the negotiation goes on with its response
  when, and only when, that response signals tool use again.
\<close>

fun negotiation_trace ::
  "int \<Rightarrow> tool_spec list option \<Rightarrow> int \<Rightarrow> response \<Rightarrow> message list \<Rightarrow> api_call list
     \<Rightarrow> (string \<times> tool_input) list \<Rightarrow> bool"
where
  "negotiation_trace R tls cur r msgs [] tcs = (R < cur \<and> tcs = [])"
| "negotiation_trace R tls cur r msgs (c # cs) tcs =
     (cur \<le> R \<and>
      take (length (tool_uses (content r))) tcs =
        map (\<lambda>(i, n, a). (n, a)) (tool_uses (content r)) \<and>
      (case tool_uses (content r) of
         [] \<Rightarrow>
           messages (params c) =
             msgs @ [\<lparr>role = ''assistant'', msg_content = Blocks (content r)\<rparr>]
       | u # us \<Rightarrow>
           (case msg_content (last (messages (params c))) of
              Results results \<Rightarrow>
                messages (params c) =
                  msgs @ [\<lparr>role = ''assistant'', msg_content = Blocks (content r)\<rparr>,
                          \<lparr>role = ''user'', msg_content = Results results\<rparr>] \<and>
                map tool_use_id results = map fst (u # us)
            | Plain s \<Rightarrow> False
            | Blocks bs \<Rightarrow> False)) \<and>
      (if tool_uses (content r) = [] \<or> R \<le> cur
       then tools (params c) = None \<and> tool_choice_param (params c) = None \<and>
            cs = [] \<and> drop (length (tool_uses (content r))) tcs = []
       else tools (params c) = (if truthy_list tls then tls else None) \<and>
            tool_choice_param (params c) =
              (if truthy_list tls then Some \<lparr>choice_type = ''auto''\<rparr> else None) \<and>
            (case outcome c of
               Inl e \<Rightarrow> cs = [] \<and> drop (length (tool_uses (content r))) tcs = []
             | Inr r' \<Rightarrow>
                 if stop_reason r' = ''tool_use''
                 then negotiation_trace R tls (cur + 1) r' (messages (params c)) cs
                        (drop (length (tool_uses (content r))) tcs)
                 else cs = [] \<and> drop (length (tool_uses (content r))) tcs = [])))"

text \<open>
  The part of it that concerns the tools parameter: which calls are made from round
  \<open>cur\<close> on for the tool-use response \<open>r\<close>, and which of them is the wrap-up call
  without tools.
\<close>

fun wrap_up_schedule ::
  "int \<Rightarrow> tool_spec list option \<Rightarrow> int \<Rightarrow> response \<Rightarrow> api_call list \<Rightarrow> bool"
where
  "wrap_up_schedule R tls cur r [] = (R < cur)"
| "wrap_up_schedule R tls cur r (c # cs) =
     (cur \<le> R \<and>
      (if tool_uses (content r) = [] \<or> R \<le> cur
       then tools (params c) = None \<and> tool_choice_param (params c) = None \<and> cs = []
       else tools (params c) = (if truthy_list tls then tls else None) \<and>
            (case outcome c of
               Inl e \<Rightarrow> cs = []
             | Inr r' \<Rightarrow>
                 if stop_reason r' = ''tool_use''
                 then wrap_up_schedule R tls (cur + 1) r' cs
                 else cs = [])))"

subsection \<open>Test doubles\<close>

text \<open>
  The mocks of \<^verbatim>\<open>tests/test_ai_generator.py\<close>: a client and a tool manager that
  answer the k-th call with the k-th entry of a list (\<^verbatim>\<open>side_effect\<close>), the world
  being the two call counters; and collaborators that are functions of the request.
\<close>

definition mock_client :: "(error + response) list \<Rightarrow> (nat \<times> nat) model_client" where
  "mock_client side_effect p w =
     (if fst w < length side_effect then side_effect ! fst w
      else Inl (ModelClientError ''''),
      (Suc (fst w), snd w))"

definition mock_tool_manager :: "tool_outcome list \<Rightarrow> (nat \<times> nat) tool_manager" where
  "mock_tool_manager side_effect n a w =
     (if snd w < length side_effect then side_effect ! snd w else Raised '''',
      (fst w, Suc (snd w)))"

definition fresh :: "(nat \<times> nat) state" where
  "fresh = \<lparr>world = (0, 0), api_calls = [], tool_calls = []\<rparr>"

definition test_tools :: "tool_spec list" where
  "test_tools =
     [\<lparr>tool_name = ''test_tool_1'', description = ''Test tool 1'',
       input_schema = JObject [(''type'', JString ''object''), (''properties'', JObject [])]\<rparr>,
      \<lparr>tool_name = ''test_tool_2'', description = ''Test tool 2'',
       input_schema = JObject [(''type'', JString ''object''), (''properties'', JObject [])]\<rparr>]"

definition tool_use_response :: "string \<Rightarrow> string \<Rightarrow> tool_input \<Rightarrow> response" where
  "tool_use_response i n a = \<lparr>stop_reason = ''tool_use'', content = [ToolUse i n a]\<rparr>"

definition text_response :: "string \<Rightarrow> response" where
  "text_response t = \<lparr>stop_reason = ''end_turn'', content = [Text t]\<rparr>"

text \<open>
  A client that asks for a tool as long as the request offers tools and answers in text
  otherwise, and an executor that always raises.
\<close>

definition eager_client :: "(nat \<times> nat) model_client" where
  "eager_client p w =
     (if tools p \<noteq> None
      then Inr (tool_use_response ''tool_id'' ''test_tool_1'' [(''param'', JString ''value'')])
      else Inr (text_response ''Final response after error''),
      w)"

definition failing_tool_manager :: "(nat \<times> nat) tool_manager" where
  "failing_tool_manager n a w = (Raised ''Test tool execution error'', w)"

text \<open>The generators of the tests: \<^verbatim>\<open>AIGenerator(api_key, "test_model", base_url)\<close>.\<close>

definition test_generator :: "(error + response) list \<Rightarrow> (nat \<times> nat) AIGenerator" where
  "test_generator side_effect = init (mock_client side_effect) ''test_model''"

definition eager_generator :: "(nat \<times> nat) AIGenerator" where
  "eager_generator = init eager_client ''test_model''"

section \<open>Facts about the parts of the program\<close>

declare tool_loop.simps [simp del]

subsection \<open>Request parameters\<close>

lemma final_params_fields [simp]:
  "messages (final_params self ms sys) = ms"
  "system (final_params self ms sys) = sys"
  "tools (final_params self ms sys) = None"
  "tool_choice_param (final_params self ms sys) = None"
  by (simp_all add: final_params_def)

lemma next_params_fields [simp]:
  "messages (next_params self ms sys tls) = ms"
  "system (next_params self ms sys tls) = sys"
  by (simp_all add: next_params_def Let_def)

lemma initial_params_fields [simp]:
  "messages (initial_params self q h tls) = [\<lparr>role = ''user'', msg_content = Plain q\<rparr>]"
  "system (initial_params self q h tls) = system_content h"
  by (simp_all add: initial_params_def Let_def)

lemma first_call_fields [simp]:
  "site (first_call self q h tls r) = InitialCall"
  "params (first_call self q h tls r) = initial_params self q h tls"
  "outcome (first_call self q h tls r) = r"
  by (simp_all add: first_call_def)

lemma content0_text_Inr: "content0_text bs = Inr t \<longleftrightarrow> (\<exists>rest. bs = Text t # rest)"
  by (cases bs rule: content0_text.cases) auto

text \<open>The test \<^verbatim>\<open>content_block.type == "tool_use"\<close> is the match on the constructor.\<close>

lemma block_type_tool_use: "block_type b = ''tool_use'' \<longleftrightarrow> (\<exists>i n a. b = ToolUse i n a)"
  by (cases b) simp_all

subsection \<open>The two collaborators and the record of calls\<close>

lemma messages_create_log:
  "messages_create self s p st = (r, st') \<Longrightarrow>
     api_calls st' = api_calls st @ [\<lparr>site = s, params = p, outcome = r\<rparr>] \<and>
     tool_calls st' = tool_calls st"
  by (auto simp: messages_create_def split: prod.splits)

lemma messages_create_outcome:
  "messages_create self s p st = (r, st') \<Longrightarrow> client self p (world st) = (r, world st')"
  by (auto simp: messages_create_def split: prod.splits)

lemma tool_uses_append: "tool_uses (xs @ ys) = tool_uses xs @ tool_uses ys"
  by (induction xs rule: tool_uses.induct) auto

lemma tool_step_log:
  "tool_step tm b (rs, h, st) = (rs', h', st') \<Longrightarrow>
     api_calls st' = api_calls st \<and>
     tool_calls st' = tool_calls st @ map (\<lambda>(i, n, a). (n, a)) (tool_uses [b]) \<and>
     (\<exists>new. rs' = rs @ new \<and> map tool_use_id new = map fst (tool_uses [b])) \<and>
     h' = (h \<or> tool_uses [b] \<noteq> [])"
  by (cases b) (auto split: prod.splits)

lemma execute_tool_calls_log:
  "execute_tool_calls tm bs (rs, h, st) = (rs', h', st') \<Longrightarrow>
     api_calls st' = api_calls st \<and>
     tool_calls st' = tool_calls st @ map (\<lambda>(i, n, a). (n, a)) (tool_uses bs) \<and>
     (\<exists>new. rs' = rs @ new \<and> map tool_use_id new = map fst (tool_uses bs)) \<and>
     h' = (h \<or> tool_uses bs \<noteq> [])"
proof (induction bs arbitrary: rs h st)
  case Nil
  then show ?case by simp
next
  case (Cons b bs)
  obtain rs1 h1 st1 where s: "tool_step tm b (rs, h, st) = (rs1, h1, st1)"
    by (cases "tool_step tm b (rs, h, st)") auto
  from Cons.prems s have e: "execute_tool_calls tm bs (rs1, h1, st1) = (rs', h', st')"
    by simp
  note a = tool_step_log [OF s] and b = Cons.IH [OF e]
  have u: "tool_uses (b # bs) = tool_uses [b] @ tool_uses bs"
    using tool_uses_append [of "[b]" bs] by simp
  from a b show ?case unfolding u by auto
qed

lemma execute_tool_calls_append:
  "execute_tool_calls tm (xs @ ys) acc = execute_tool_calls tm ys (execute_tool_calls tm xs acc)"
  by (induction xs arbitrary: acc) auto

subsection \<open>One pass through the loop body\<close>

lemma round_log:
  "\<exists>c results h st1.
     execute_tool_calls tm (content r0) ([], False, st) = (results, h, st1) \<and>
     round_post self tls mx sys r0 msgs cur st
       (negotiation_round self tm tls mx sys r0 msgs cur st) c results st1"
proof -
  define out where "out = negotiation_round self tm tls mx sys r0 msgs cur st"
  obtain results h st1 where
    e: "execute_tool_calls tm (content r0) ([], False, st) = (results, h, st1)"
    by (cases "execute_tool_calls tm (content r0) ([], False, st)") auto
  note l = execute_tool_calls_log [OF e]
  let ?ms = "round_messages msgs r0 results"
  have "\<exists>c. round_post self tls mx sys r0 msgs cur st out c results st1"
  proof (cases "\<not> h \<or> mx \<le> cur")
    case True
    obtain r st2 where m: "messages_create self FinalCall (final_params self ?ms sys) st1 = (r, st2)"
      by (cases "messages_create self FinalCall (final_params self ?ms sys) st1") auto
    note ml = messages_create_log [OF m] and mo = messages_create_outcome [OF m]
    from e True m have out:
      "out = Exit (case r of Inl e \<Rightarrow> Inl e | Inr fr \<Rightarrow> return_text FinalReturn fr, st2)"
      by (auto simp: out_def negotiation_round_def split: sum.splits)
    have "round_post self tls mx sys r0 msgs cur st out
            \<lparr>site = FinalCall, params = final_params self ?ms sys, outcome = r\<rparr> results st1"
      using l ml mo True out by (auto simp: round_post_def split: sum.splits)
    then show ?thesis ..
  next
    case False
    let ?p = "next_params self ?ms sys tls"
    obtain r st2 where m: "messages_create self NextCall ?p st1 = (r, st2)"
      by (cases "messages_create self NextCall ?p st1") auto
    note ml = messages_create_log [OF m] and mo = messages_create_outcome [OF m]
    from l False have ne: "results \<noteq> []" by auto
    from e False m have out:
      "out = (case r of
                Inl e \<Rightarrow> Exit (Inl e, st2)
              | Inr r' \<Rightarrow>
                  if stop_reason r' \<noteq> ''tool_use'' then Exit (return_text NextReturn r', st2)
                  else Again r' ?ms st2)"
      by (auto simp: out_def negotiation_round_def split: sum.splits)
    have "round_post self tls mx sys r0 msgs cur st out
            \<lparr>site = NextCall, params = ?p, outcome = r\<rparr> results st1"
      using l ml mo False out ne by (auto simp: round_post_def split: sum.splits)
    then show ?thesis ..
  qed
  with e show ?thesis unfolding out_def by blast
qed

lemma round_postD:
  assumes "round_post self tls mx sys r0 msgs cur st out c results st1"
  shows "api_calls (outcome_state out) = api_calls st @ [c]"
    and "tool_calls (outcome_state out) =
           tool_calls st @ map (\<lambda>(i, n, a). (n, a)) (tool_uses (content r0))"
    and "api_calls st1 = api_calls st"
    and "tool_calls st1 = tool_calls (outcome_state out)"
    and "map tool_use_id results = map fst (tool_uses (content r0))"
    and "params c = (if site c = FinalCall
                 then final_params self (round_messages msgs r0 results) sys
                 else next_params self (round_messages msgs r0 results) sys tls)"
    and "client self (params c) (world st1) = (outcome c, world (outcome_state out))"
    and "site c = FinalCall \<or> site c = NextCall"
    and "site c = FinalCall \<longleftrightarrow> (tool_uses (content r0) = [] \<or> mx \<le> cur)"
    and "case out of
        Again r m s \<Rightarrow>
          m = round_messages msgs r0 results \<and> results \<noteq> [] \<and> cur < mx \<and>
          outcome c = Inr r \<and> stop_reason r = ''tool_use'' \<and> site c = NextCall
      | Exit (res, s) \<Rightarrow>
          (case outcome c of
             Inl e \<Rightarrow> res = Inl e
           | Inr resp \<Rightarrow>
               res = return_text (if site c = FinalCall then FinalReturn else NextReturn) resp \<and>
               (site c = NextCall \<longrightarrow> stop_reason resp \<noteq> ''tool_use''))"
  using assms unfolding round_post_def by blast+

lemma round_post_params:
  assumes "round_post self tls mx sys r0 msgs cur st out c results st1"
  shows "messages (params c) = round_messages msgs r0 results"
    and "system (params c) = sys"
    and "site c = FinalCall \<longrightarrow> tools (params c) = None \<and> tool_choice_param (params c) = None"
    and "site c \<noteq> InitialCall"
    and "\<exists>w. fst (client self (params c) w) = outcome c"
proof -
  note d = round_postD [OF assms]
  from d(6) show "messages (params c) = round_messages msgs r0 results" by simp
  from d(6) show "system (params c) = sys" by simp
  from d(6) show "site c = FinalCall \<longrightarrow> tools (params c) = None \<and> tool_choice_param (params c) = None"
    by simp
  from d(8) show "site c \<noteq> InitialCall" by auto
  from d(7) have "fst (client self (params c) (world st1)) = outcome c" by simp
  then show "\<exists>w. fst (client self (params c) w) = outcome c" ..
qed

lemma round_post_Exit:
  assumes "round_post self tls mx sys r0 msgs cur st (Exit (res, s)) c results st1"
  shows "case outcome c of
             Inl e \<Rightarrow> res = Inl e
           | Inr resp \<Rightarrow>
               res = return_text (if site c = FinalCall then FinalReturn else NextReturn) resp \<and>
               (site c = NextCall \<longrightarrow> stop_reason resp \<noteq> ''tool_use'')"
  using round_postD(10) [OF assms] by simp

lemma round_post_Again:
  assumes "round_post self tls mx sys r0 msgs cur st (Again r m s) c results st1"
  shows "m = round_messages msgs r0 results" and "results \<noteq> []" and "cur < mx"
    and "outcome c = Inr r" and "stop_reason r = ''tool_use''" and "site c = NextCall"
  using round_postD(10) [OF assms] by simp_all

subsection \<open>The loop\<close>

lemma tool_loop_exit:
  assumes "cur \<le> mx" and "negotiation_round self tm tls mx sys r0 msgs cur st = Exit r"
  shows "tool_loop self tm tls mx sys r0 msgs cur st = r"
  using assms by (simp add: tool_loop.simps)

lemma tool_loop_again:
  assumes "cur \<le> mx" and "negotiation_round self tm tls mx sys r0 msgs cur st = Again r m s"
  shows "tool_loop self tm tls mx sys r0 msgs cur st =
         tool_loop self tm tls mx sys r m (cur + 1) s"
  using assms by (simp add: tool_loop.simps)

lemma tool_loop_done:
  assumes "\<not> cur \<le> mx"
  shows "tool_loop self tm tls mx sys r0 msgs cur st = (Inr (FallbackReturn, fallback_text), st)"
  using assms by (simp add: tool_loop.simps)

lemma tool_loop_log:
  "tool_loop self tm tls mx sys r0 msgs cur st = (res, st') \<Longrightarrow>
     \<exists>new nt. api_calls st' = api_calls st @ new \<and> tool_calls st' = tool_calls st @ nt \<and>
       loop_post self mx cur sys res new"
proof (induction self tm tls mx sys r0 msgs cur st arbitrary: res st' rule: tool_loop.induct)
  case (1 self tm tls mx sys r0 msgs cur st)
  show ?case
  proof (cases "cur \<le> mx")
    case False
    with "1.prems" show ?thesis
      by (simp add: tool_loop_done loop_post_def)
  next
    case True
    define out where "out = negotiation_round self tm tls mx sys r0 msgs cur st"
    from round_log [of tm r0 st self tls mx sys msgs cur] obtain c results st1 where
      rp: "round_post self tls mx sys r0 msgs cur st out c results st1"
      unfolding out_def by blast
    note pc = round_post_params [OF rp]
    note ac = round_postD(1) [OF rp] and tc = round_postD(2) [OF rp]
      and sc = round_postD(8) [OF rp] and fc = round_postD(9) [OF rp]
    show ?thesis
    proof (cases out)
      case (Exit r)
      with "1.prems" True have r: "r = (res, st')"
        by (simp add: tool_loop_exit out_def)
      from ac tc Exit r have a: "api_calls st' = api_calls st @ [c]"
        and t: "\<exists>nt. tool_calls st' = tool_calls st @ nt" by simp_all
      from rp Exit r have "round_post self tls mx sys r0 msgs cur st (Exit (res, st')) c results st1"
        by simp
      note oc = round_post_Exit [OF this]
      have "loop_post self mx cur sys res [c]"
        using True pc sc fc oc
        by (cases res; cases "outcome c")
           (auto simp: loop_post_def return_text_def split: if_splits sum.splits)
      with a t show ?thesis by blast
    next
      case (Again r m s)
      with "1.prems" True have t: "tool_loop self tm tls mx sys r m (cur + 1) s = (res, st')"
        by (simp add: tool_loop_again out_def)
      from Again have o': "negotiation_round self tm tls mx sys r0 msgs cur st = Again r m s"
        by (simp add: out_def)
      from "1.IH" [OF True o' t] obtain new nt where
        n: "api_calls st' = api_calls s @ new" and nt: "tool_calls st' = tool_calls s @ nt" and
        p: "loop_post self mx (cur + 1) sys res new"
        by blast
      from rp Again have "round_post self tls mx sys r0 msgs cur st (Again r m s) c results st1"
        by simp
      note lt = round_post_Again(3) [OF this] and nc = round_post_Again(6) [OF this]
      from ac tc Again have a: "api_calls s = api_calls st @ [c]"
        and t': "tool_calls s = tool_calls st @ map (\<lambda>(i, n, a). (n, a)) (tool_uses (content r0))"
        by simp_all
      from lt p have nn: "new \<noteq> []" by (simp add: loop_post_def)
      have "loop_post self mx cur sys res (c # new)"
        using p lt nc pc nn by (auto simp: loop_post_def split: sum.splits)
      with n a nt t' show ?thesis by auto
    qed
  qed
qed

subsection \<open>The first request\<close>

lemma generate_response_unfold:
  assumes "client self (initial_params self q h tls) (world st) = (r0, w')"
  shows "generate_response self q h tls tmo R st =
     (case r0 of
        Inl e \<Rightarrow>
          (Inl e, st\<lparr>world := w', api_calls := api_calls st @ [first_call self q h tls r0]\<rparr>)
      | Inr r \<Rightarrow>
          (case (stop_reason r = ''tool_use'', tmo) of
             (True, Some tm) \<Rightarrow>
               tool_loop self tm tls R (system_content h) r
                 [\<lparr>role = ''user'', msg_content = Plain q\<rparr>] 1
                 (st\<lparr>world := w', api_calls := api_calls st @ [first_call self q h tls r0]\<rparr>)
           | _ \<Rightarrow>
               (return_text DirectReturn r,
                st\<lparr>world := w', api_calls := api_calls st @ [first_call self q h tls r0]\<rparr>)))"
  using assms
  by (auto simp: generate_response_def messages_create_def handle_tool_execution_def
      first_call_def Let_def split: sum.splits bool.splits option.splits)

lemma generate_response_direct:
  assumes "client self (initial_params self q h tls) (world st) = (Inr r, w')"
    and "stop_reason r \<noteq> ''tool_use'' \<or> tmo = None"
  shows "generate_response self q h tls tmo R st =
     (return_text DirectReturn r,
      st\<lparr>world := w', api_calls := api_calls st @ [first_call self q h tls (Inr r)]\<rparr>)"
  using assms(2)
  by (auto simp: generate_response_unfold [OF assms(1)] split: option.splits bool.splits)

lemma generate_response_loop:
  assumes "client self (initial_params self q h tls) (world st) = (Inr r, w')"
    and "stop_reason r = ''tool_use''"
  shows "generate_response self q h tls (Some tm) R st =
     tool_loop self tm tls R (system_content h) r [\<lparr>role = ''user'', msg_content = Plain q\<rparr>] 1
       (st\<lparr>world := w', api_calls := api_calls st @ [first_call self q h tls (Inr r)]\<rparr>)"
  using assms(2) by (simp add: generate_response_unfold [OF assms(1)])

lemma generate_response_failed:
  assumes "client self (initial_params self q h tls) (world st) = (Inl e, w')"
  shows "generate_response self q h tls tmo R st =
     (Inl e, st\<lparr>world := w', api_calls := api_calls st @ [first_call self q h tls (Inl e)]\<rparr>)"
  by (simp add: generate_response_unfold [OF assms])

text \<open>The three ways a call of \<^verbatim>\<open>generate_response\<close> can go.\<close>

lemma generate_response_cases:
  assumes "generate_response self q h tls tmo R st = (res, st')"
  obtains
    (failed) e w' where
      "client self (initial_params self q h tls) (world st) = (Inl e, w')"
      "res = Inl e"
      "st' = st\<lparr>world := w', api_calls := api_calls st @ [first_call self q h tls (Inl e)]\<rparr>"
  | (direct) r w' where
      "client self (initial_params self q h tls) (world st) = (Inr r, w')"
      "stop_reason r \<noteq> ''tool_use'' \<or> tmo = None"
      "res = return_text DirectReturn r"
      "st' = st\<lparr>world := w', api_calls := api_calls st @ [first_call self q h tls (Inr r)]\<rparr>"
  | (loop) r w' tm where
      "client self (initial_params self q h tls) (world st) = (Inr r, w')"
      "stop_reason r = ''tool_use''"
      "tmo = Some tm"
      "tool_loop self tm tls R (system_content h) r [\<lparr>role = ''user'', msg_content = Plain q\<rparr>] 1
         (st\<lparr>world := w', api_calls := api_calls st @ [first_call self q h tls (Inr r)]\<rparr>)
       = (res, st')"
proof -
  obtain r0 w' where c: "client self (initial_params self q h tls) (world st) = (r0, w')"
    by (cases "client self (initial_params self q h tls) (world st)") auto
  show thesis
  proof (cases r0)
    case (Inl e)
    with c assms generate_response_failed [of self q h tls st e w' tmo R] show thesis
      by (intro failed [of e w']) auto
  next
    case (Inr r)
    show thesis
    proof (cases "stop_reason r \<noteq> ''tool_use'' \<or> tmo = None")
      case True
      with c Inr assms generate_response_direct [of self q h tls st r w' tmo R] show thesis
        by (intro direct [of r w']) auto
    next
      case False
      then obtain tm where tm: "tmo = Some tm" and s: "stop_reason r = ''tool_use''" by auto
      with c Inr assms generate_response_loop [of self q h tls st r w' tm R] show thesis
        by (intro loop [of r w' tm]) auto
    qed
  qed
qed

subsection \<open>Alternating roles\<close>

lemma roles_from_append:
  "roles_from u (xs @ ys) \<longleftrightarrow> roles_from u xs \<and> roles_from (u = even (length xs)) ys"
  by (induction xs arbitrary: u) auto

lemma roles_from_take: "roles_from u ms \<Longrightarrow> roles_from u (take k ms)"
proof (induction ms arbitrary: u k)
  case Nil
  then show ?case by simp
next
  case (Cons m ms)
  then show ?case by (cases k) auto
qed

lemma roles_from_adjacent:
  "roles_from u ms \<Longrightarrow> Suc i < length ms \<Longrightarrow> role (ms ! i) \<noteq> role (ms ! Suc i)"
proof (induction ms arbitrary: u i)
  case Nil
  then show ?case by simp
next
  case (Cons m ms)
  show ?case
  proof (cases i)
    case 0
    with Cons.prems show ?thesis by (cases ms) (auto split: if_splits)
  next
    case (Suc j)
    with Cons.prems Cons.IH [of "\<not> u" j] show ?thesis by simp
  qed
qed

lemma round_messages_roles:
  assumes "roles_from True ms" and "odd (length ms)"
  shows "roles_from True (round_messages ms r rs)"
    and "round_messages ms r rs \<noteq> []"
    and "rs \<noteq> [] \<Longrightarrow> odd (length (round_messages ms r rs))"
  using assms by (auto simp: round_messages_def Let_def roles_from_append)

lemma tool_loop_roles:
  "tool_loop self tm tls mx sys r0 msgs cur st = (res, st') \<Longrightarrow>
   roles_from True msgs \<Longrightarrow> odd (length msgs) \<Longrightarrow>
     \<exists>new. api_calls st' = api_calls st @ new \<and>
       (\<forall>c \<in> set new. roles_from True (messages (params c)) \<and> messages (params c) \<noteq> [])"
proof (induction self tm tls mx sys r0 msgs cur st arbitrary: res st' rule: tool_loop.induct)
  case (1 self tm tls mx sys r0 msgs cur st)
  show ?case
  proof (cases "cur \<le> mx")
    case False
    with "1.prems" show ?thesis
      by (simp add: tool_loop_done)
  next
    case True
    define out where "out = negotiation_round self tm tls mx sys r0 msgs cur st"
    from round_log [of tm r0 st self tls mx sys msgs cur] obtain c results st1 where
      rp: "round_post self tls mx sys r0 msgs cur st out c results st1"
      unfolding out_def by blast
    note ac = round_postD(1) [OF rp]
    note rm = round_messages_roles [OF "1.prems"(2,3), where r = r0 and rs = results]
    from round_post_params(1) [OF rp] rm
    have good: "roles_from True (messages (params c)) \<and> messages (params c) \<noteq> []" by simp
    show ?thesis
    proof (cases out)
      case (Exit r)
      with "1.prems" True have r: "r = (res, st')"
        by (simp add: tool_loop_exit out_def)
      from ac Exit r have a: "api_calls st' = api_calls st @ [c]" by simp
      with good show ?thesis by auto
    next
      case (Again r m s)
      with "1.prems" True have t: "tool_loop self tm tls mx sys r m (cur + 1) s = (res, st')"
        by (simp add: tool_loop_again out_def)
      from Again have o': "negotiation_round self tm tls mx sys r0 msgs cur st = Again r m s"
        by (simp add: out_def)
      from rp Again have "round_post self tls mx sys r0 msgs cur st (Again r m s) c results st1"
        by simp
      note ag = round_post_Again [OF this]
      from ag(1,2) rm have e: "roles_from True m" "odd (length m)" by simp_all
      from "1.IH" [OF True o' t e] obtain new where
        n: "api_calls st' = api_calls s @ new" and
        p: "\<forall>c \<in> set new. roles_from True (messages (params c)) \<and> messages (params c) \<noteq> []"
        by blast
      from ac Again have a: "api_calls s = api_calls st @ [c]" by simp
      from n a p good show ?thesis by auto
    qed
  qed
qed

subsection \<open>A raising executor and one that returns the error string\<close>






subsection \<open>A Model Client that answers\<close>

lemma tool_loop_answers:
  assumes "answers_with_text (client self)"
  shows "\<exists>x t. fst (tool_loop self tm tls mx sys r0 msgs cur st) = Inr (x, t)"
proof -
  obtain res st' where t: "tool_loop self tm tls mx sys r0 msgs cur st = (res, st')"
    by (cases "tool_loop self tm tls mx sys r0 msgs cur st") auto
  from tool_loop_log [OF t] obtain new where p: "loop_post self mx cur sys res new" by blast
  show ?thesis
  proof (cases "cur \<le> mx")
    case False
    with p t show ?thesis by (simp add: loop_post_def)
  next
    case True
    with p have ne: "new \<noteq> []" by (simp add: loop_post_def)
    then have lin: "last new \<in> set new" by simp
    with p obtain w where w: "fst (client self (params (last new)) w) = outcome (last new)"
      and tl: "site (last new) = FinalCall \<longrightarrow> tools (params (last new)) = None"
      and ni: "site (last new) \<noteq> InitialCall"
      unfolding loop_post_def by blast
    from assms have a: "case fst (client self (params (last new)) w) of
        Inl e \<Rightarrow> False
      | Inr r \<Rightarrow> (stop_reason r \<noteq> ''tool_use'' \<or> tools (params (last new)) = None \<longrightarrow>
                   (\<exists>t bs. content r = Text t # bs))"
      unfolding answers_with_text_def by blast
    show ?thesis
    proof (cases res)
      case (Inl e)
      with p True have "outcome (last new) = Inl e \<or>
                    (\<exists>resp. outcome (last new) = Inr resp \<and>
                       content0_text (content resp) = Inl e \<and>
                       (site (last new) = NextCall \<longrightarrow> stop_reason resp \<noteq> ''tool_use''))"
        by (simp add: loop_post_def)
      with a w tl ni have False
        by (cases "site (last new)") (auto split: sum.splits)
      then show ?thesis ..
    next
      case (Inr xt)
      with t show ?thesis by (cases xt) simp
    qed
  qed
qed

lemma generate_response_answers:
  assumes "answers_with_text (client self)"
  shows "\<exists>x t. fst (generate_response self q h tls (Some tm) R st) = Inr (x, t)"
proof -
  obtain r0 w' where c: "client self (initial_params self q h tls) (world st) = (r0, w')"
    by (cases "client self (initial_params self q h tls) (world st)") auto
  from assms have a: "case fst (client self (initial_params self q h tls) (world st)) of
        Inl e \<Rightarrow> False
      | Inr r \<Rightarrow> (stop_reason r \<noteq> ''tool_use'' \<or> tools (initial_params self q h tls) = None \<longrightarrow>
                   (\<exists>t bs. content r = Text t # bs))"
    unfolding answers_with_text_def by blast
  with c obtain r where r: "r0 = Inr r"
    and fb: "stop_reason r \<noteq> ''tool_use'' \<longrightarrow> (\<exists>t bs. content r = Text t # bs)"
    by (cases r0) auto
  show ?thesis
  proof (cases "stop_reason r = ''tool_use''")
    case True
    with c r tool_loop_answers [OF assms] show ?thesis
      by (simp add: generate_response_loop)
  next
    case False
    with fb obtain t bs where "content r = Text t # bs" by blast
    with c r False show ?thesis
      by (simp add: generate_response_direct return_text_def)
  qed
qed

subsection \<open>Collaborators that are functions of their inputs\<close>

lemma tool_step_stateless:
  assumes "stateless_executor tm" and "tool_step tm b (rs, h, st) = (rs', h', st')"
  shows "rs' = rs @ map (result_for tm w0) (tool_uses [b])"
proof (cases b)
  case (Text t)
  with assms(2) show ?thesis by simp
next
  case (ToolUse i n a)
  from assms(1) have "fst (tm n a (world st)) = fst (tm n a w0)"
    unfolding stateless_executor_def by blast
  with assms(2) ToolUse show ?thesis
    by (auto simp: result_for_def split: prod.splits)
qed

lemma execute_tool_calls_stateless:
  assumes "stateless_executor tm"
  shows "execute_tool_calls tm bs (rs, h, st) = (rs', h', st') \<Longrightarrow>
         rs' = rs @ map (result_for tm w0) (tool_uses bs)"
proof (induction bs arbitrary: rs h st)
  case Nil
  then show ?case by simp
next
  case (Cons b bs)
  obtain rs1 h1 st1 where s: "tool_step tm b (rs, h, st) = (rs1, h1, st1)"
    by (cases "tool_step tm b (rs, h, st)") auto
  from Cons.prems s have e: "execute_tool_calls tm bs (rs1, h1, st1) = (rs', h', st')"
    by simp
  have u: "tool_uses (b # bs) = tool_uses [b] @ tool_uses bs"
    using tool_uses_append [of "[b]" bs] by simp
  from tool_step_stateless [OF assms s, of w0] Cons.IH [OF e] show ?case
    unfolding u by simp
qed

lemma round_deterministic:
  assumes "stateless_client (client self)" and "stateless_executor tm"
    and "execute_tool_calls tm (content r0) ([], False, sa) = (ra, ha, sa1)"
    and "round_post self tls mx sys r0 msgs cur sa outa ca ra sa1"
    and "execute_tool_calls tm (content r0) ([], False, sb) = (rb, hb, sb1)"
    and "round_post self tls mx sys r0 msgs cur sb outb cb rb sb1"
  shows "ca = cb"
    and "case outa of
           Exit (res, s) \<Rightarrow> (\<exists>s'. outb = Exit (res, s'))
         | Again r m s \<Rightarrow> (\<exists>s'. outb = Again r m s')"
proof -
  note a = round_postD [OF assms(4)] and b = round_postD [OF assms(6)]
  from execute_tool_calls_stateless [OF assms(2) assms(3), of "world sa"]
    execute_tool_calls_stateless [OF assms(2) assms(5), of "world sa"]
  have r: "ra = rb" by simp
  from a(8,9) b(8,9) have s: "site ca = site cb" by auto
  with a(6) b(6) r have p: "params ca = params cb" by simp
  from assms(1) have "fst (client self (params ca) (world sa1)) = fst (client self (params ca) (world sb1))"
    unfolding stateless_client_def by blast
  with a(7) b(7) p have oc: "outcome ca = outcome cb" by simp
  from s p oc show c: "ca = cb" by (cases ca; cases cb) simp
  show "case outa of
           Exit (res, s) \<Rightarrow> (\<exists>s'. outb = Exit (res, s'))
         | Again r m s \<Rightarrow> (\<exists>s'. outb = Again r m s')"
  proof (cases outa)
    case (Exit x)
    obtain res s where x: "x = (res, s)" by (cases x) auto
    show ?thesis
    proof (cases outb)
      case (Exit y)
      obtain res' s' where y: "y = (res', s')" by (cases y) auto
      from a(10) b(10) \<open>outa = Exit x\<close> Exit x y c have "res = res'"
        by (auto split: sum.splits)
      with \<open>outa = Exit x\<close> Exit x y show ?thesis by simp
    next
      case (Again r' m' s')
      from a(10) b(10) \<open>outa = Exit x\<close> Again x c have False
        by (auto split: sum.splits)
      then show ?thesis ..
    qed
  next
    case (Again r m s)
    show ?thesis
    proof (cases outb)
      case (Exit y)
      obtain res' s' where y: "y = (res', s')" by (cases y) auto
      from a(10) b(10) \<open>outa = Again r m s\<close> Exit y c have False
        by (auto split: sum.splits)
      then show ?thesis ..
    next
      case (Again r' m' s')
      from a(10) b(10) \<open>outa = Again r m s\<close> Again c r have "r = r'" "m = m'"
        by auto
      with \<open>outa = Again r m s\<close> Again show ?thesis by simp
    qed
  qed
qed

lemma tool_loop_deterministic:
  assumes "stateless_client (client self)" and "stateless_executor tm"
  shows "\<exists>na nt.
     fst (tool_loop self tm tls mx sys r0 msgs cur sa) =
       fst (tool_loop self tm tls mx sys r0 msgs cur sb) \<and>
     api_calls (snd (tool_loop self tm tls mx sys r0 msgs cur sa)) = api_calls sa @ na \<and>
     api_calls (snd (tool_loop self tm tls mx sys r0 msgs cur sb)) = api_calls sb @ na \<and>
     tool_calls (snd (tool_loop self tm tls mx sys r0 msgs cur sa)) = tool_calls sa @ nt \<and>
     tool_calls (snd (tool_loop self tm tls mx sys r0 msgs cur sb)) = tool_calls sb @ nt"
  using assms
proof (induction self tm tls mx sys r0 msgs cur sa arbitrary: sb rule: tool_loop.induct)
  case (1 self tm tls mx sys r0 msgs cur sa)
  show ?case
  proof (cases "cur \<le> mx")
    case False
    then show ?thesis by (simp add: tool_loop_done)
  next
    case True
    define outa where "outa = negotiation_round self tm tls mx sys r0 msgs cur sa"
    define outb where "outb = negotiation_round self tm tls mx sys r0 msgs cur sb"
    from round_log [of tm r0 sa self tls mx sys msgs cur] obtain ca ra ha sa1 where
      ea: "execute_tool_calls tm (content r0) ([], False, sa) = (ra, ha, sa1)" and
      pa: "round_post self tls mx sys r0 msgs cur sa outa ca ra sa1"
      unfolding outa_def by blast
    from round_log [of tm r0 sb self tls mx sys msgs cur] obtain cb rb hb sb1 where
      eb: "execute_tool_calls tm (content r0) ([], False, sb) = (rb, hb, sb1)" and
      pb: "round_post self tls mx sys r0 msgs cur sb outb cb rb sb1"
      unfolding outb_def by blast
    note d = round_deterministic [OF "1.prems" ea pa eb pb]
    note a = round_postD(1,2) [OF pa] and b = round_postD(1,2) [OF pb]
    let ?nt = "map (\<lambda>(i, n, a). (n, a)) (tool_uses (content r0))"
    show ?thesis
    proof (cases outa)
      case (Exit x)
      obtain res s where x: "x = (res, s)" by (cases x) auto
      with d(2) Exit obtain s' where ob: "outb = Exit (res, s')" by auto
      from Exit x True have ta: "tool_loop self tm tls mx sys r0 msgs cur sa = (res, s)"
        by (simp add: tool_loop_exit outa_def)
      from ob True have tb: "tool_loop self tm tls mx sys r0 msgs cur sb = (res, s')"
        by (simp add: tool_loop_exit outb_def)
      from a b Exit x ob d(1) ta tb show ?thesis by simp
    next
      case (Again r m s)
      with d(2) obtain s' where ob: "outb = Again r m s'" by auto
      from Again have oa: "negotiation_round self tm tls mx sys r0 msgs cur sa = Again r m s"
        by (simp add: outa_def)
      from oa True have ta: "tool_loop self tm tls mx sys r0 msgs cur sa =
          tool_loop self tm tls mx sys r m (cur + 1) s"
        by (simp add: tool_loop_again)
      from ob True have tb: "tool_loop self tm tls mx sys r0 msgs cur sb =
          tool_loop self tm tls mx sys r m (cur + 1) s'"
        by (simp add: tool_loop_again outb_def)
      from "1.IH" [OF True oa "1.prems", of s'] obtain na nt where
        ih: "fst (tool_loop self tm tls mx sys r m (cur + 1) s) =
               fst (tool_loop self tm tls mx sys r m (cur + 1) s')"
            "api_calls (snd (tool_loop self tm tls mx sys r m (cur + 1) s)) = api_calls s @ na"
            "api_calls (snd (tool_loop self tm tls mx sys r m (cur + 1) s')) = api_calls s' @ na"
            "tool_calls (snd (tool_loop self tm tls mx sys r m (cur + 1) s)) = tool_calls s @ nt"
            "tool_calls (snd (tool_loop self tm tls mx sys r m (cur + 1) s')) = tool_calls s' @ nt"
        by blast
      from a b Again ob d(1) have
        "api_calls s = api_calls sa @ [ca]" "api_calls s' = api_calls sb @ [ca]"
        "tool_calls s = tool_calls sa @ ?nt" "tool_calls s' = tool_calls sb @ ?nt"
        by simp_all
      with ih ta tb show ?thesis
        by (intro exI [of _ "ca # na"] exI [of _ "?nt @ nt"]) simp
    qed
  qed
qed

subsection \<open>The negotiation as its collaborators see it\<close>

lemma next_params_tools [simp]:
  "tools (next_params self ms sys tls) = (if truthy_list tls then tls else None)"
  "tool_choice_param (next_params self ms sys tls) =
     (if truthy_list tls then Some \<lparr>choice_type = ''auto''\<rparr> else None)"
  by (simp_all add: next_params_def final_params_def Let_def)

lemma tool_loop_trace:
  "tool_loop self tm tls mx sys r0 msgs cur st = (res, st') \<Longrightarrow>
     \<exists>new nt. api_calls st' = api_calls st @ new \<and> tool_calls st' = tool_calls st @ nt \<and>
       negotiation_trace mx tls cur r0 msgs new nt"
proof (induction self tm tls mx sys r0 msgs cur st arbitrary: res st' rule: tool_loop.induct)
  case (1 self tm tls mx sys r0 msgs cur st)
  show ?case
  proof (cases "cur \<le> mx")
    case False
    with "1.prems" show ?thesis
      by (simp add: tool_loop_done)
  next
    case True
    define out where "out = negotiation_round self tm tls mx sys r0 msgs cur st"
    let ?us = "tool_uses (content r0)"
    let ?nt = "map (\<lambda>(i, n, a). (n, a)) ?us"
    from round_log [of tm r0 st self tls mx sys msgs cur] obtain c results st1 where
      rp: "round_post self tls mx sys r0 msgs cur st out c results st1"
      unfolding out_def by blast
    note d = round_postD [OF rp] and pp = round_post_params [OF rp]
    from d(5) have len: "length results = length ?us"
      using length_map [of tool_use_id results] length_map [of fst ?us] by simp
    have transcript:
      "case ?us of
         [] \<Rightarrow>
           messages (params c) =
             msgs @ [\<lparr>role = ''assistant'', msg_content = Blocks (content r0)\<rparr>]
       | u # us \<Rightarrow>
           (case msg_content (last (messages (params c))) of
              Results results \<Rightarrow>
                messages (params c) =
                  msgs @ [\<lparr>role = ''assistant'', msg_content = Blocks (content r0)\<rparr>,
                          \<lparr>role = ''user'', msg_content = Results results\<rparr>] \<and>
                map tool_use_id results = map fst (u # us)
            | Plain s \<Rightarrow> False
            | Blocks bs \<Rightarrow> False)"
    proof (cases ?us)
      case Nil
      with len have "results = []" by simp
      with Nil pp(1) show ?thesis by (simp add: round_messages_def Let_def)
    next
      case (Cons u us)
      with len have "results \<noteq> []" by auto
      with Cons pp(1) d(5) show ?thesis by (simp add: round_messages_def Let_def)
    qed
    show ?thesis
    proof (cases out)
      case (Exit x)
      obtain res' s where x: "x = (res', s)" by (cases x) auto
      with "1.prems" True Exit have r: "res' = res" "s = st'"
        by (simp_all add: tool_loop_exit out_def)
      from rp Exit x r have "round_post self tls mx sys r0 msgs cur st (Exit (res, st')) c results st1"
        by simp
      note oc = round_post_Exit [OF this]
      from d(1,2) Exit x r have a: "api_calls st' = api_calls st @ [c]"
        and t: "tool_calls st' = tool_calls st @ ?nt" by simp_all
      have "negotiation_trace mx tls cur r0 msgs [c] ?nt"
      proof (cases "?us = [] \<or> mx \<le> cur")
        case wrap: True
        with d(9) have "site c = FinalCall" by simp
        with d(6) have "tools (params c) = None" "tool_choice_param (params c) = None"
          by simp_all
        with True wrap transcript show ?thesis by simp
      next
        case go: False
        with d(8,9) have n: "site c = NextCall" by auto
        with d(6) have p: "params c = next_params self (round_messages msgs r0 results) sys tls"
          by simp
        from oc n have "case outcome c of Inl e \<Rightarrow> True | Inr r' \<Rightarrow> stop_reason r' \<noteq> ''tool_use''"
          by (auto split: sum.splits)
        with True go transcript p show ?thesis by (auto split: sum.splits)
      qed
      with a t show ?thesis by blast
    next
      case (Again r m s)
      with "1.prems" True have t: "tool_loop self tm tls mx sys r m (cur + 1) s = (res, st')"
        by (simp add: tool_loop_again out_def)
      from Again have o': "negotiation_round self tm tls mx sys r0 msgs cur st = Again r m s"
        by (simp add: out_def)
      from rp Again have "round_post self tls mx sys r0 msgs cur st (Again r m s) c results st1"
        by simp
      note ag = round_post_Again [OF this]
      from "1.IH" [OF True o' t] obtain new nt where
        n: "api_calls st' = api_calls s @ new" and nt: "tool_calls st' = tool_calls s @ nt" and
        tr: "negotiation_trace mx tls (cur + 1) r m new nt"
        by blast
      from d(1,2) Again have a: "api_calls s = api_calls st @ [c]"
        and t': "tool_calls s = tool_calls st @ ?nt" by simp_all
      from ag(2) len have ne: "?us \<noteq> []" by auto
      from ag(6) d(6) have p: "params c = next_params self (round_messages msgs r0 results) sys tls"
        by simp
      from ag(1) pp(1) have m: "m = messages (params c)" by simp
      have tr': "negotiation_trace mx tls cur r0 msgs (c # new) (?nt @ nt)"
        using True ne ag(3,4,5) transcript p tr m by simp
      from n a have "api_calls st' = api_calls st @ c # new" by simp
      moreover from nt t' have "tool_calls st' = tool_calls st @ ?nt @ nt" by simp
      ultimately show ?thesis using tr' by blast
    qed
  qed
qed

lemma trace_schedule:
  "negotiation_trace R tls cur r msgs cs tcs \<Longrightarrow> wrap_up_schedule R tls cur r cs"
proof (induction cs arbitrary: cur r msgs tcs)
  case Nil
  then show ?case by simp
next
  case (Cons c cs)
  show ?case
  proof (cases "tool_uses (content r) = [] \<or> R \<le> cur")
    case True
    with Cons.prems show ?thesis by simp
  next
    case False
    show ?thesis
    proof (cases "outcome c")
      case (Inl e)
      with False Cons.prems show ?thesis by simp
    next
      case (Inr r')
      show ?thesis
      proof (cases "stop_reason r' = ''tool_use''")
        case True
        with False Inr Cons.prems have
          "negotiation_trace R tls (cur + 1) r' (messages (params c)) cs
             (drop (length (tool_uses (content r))) tcs)"
          by simp
        from Cons.IH [OF this] True False Inr Cons.prems show ?thesis by simp
      next
        case no: False
        with False Inr Cons.prems show ?thesis by simp
      qed
    qed
  qed
qed

lemma wrap_up_schedule_length:
  "wrap_up_schedule R tls cur r cs \<Longrightarrow> int (length cs) \<le> max 0 (R + 1 - cur)"
proof (induction cs arbitrary: cur r)
  case Nil
  then show ?case by simp
next
  case (Cons c cs)
  show ?case
  proof (cases "cs = []")
    case True
    with Cons.prems show ?thesis by simp
  next
    case False
    with Cons.prems obtain r' where "wrap_up_schedule R tls (cur + 1) r' cs" and "cur \<le> R"
      by (auto split: if_splits sum.splits)
    from Cons.IH [OF this(1)] this(2) show ?thesis by simp
  qed
qed

lemma tool_loop_first_round:
  assumes "cur \<le> mx"
    and "tool_loop self tm tls mx sys r0 msgs cur st = (res, st')"
    and "execute_tool_calls tm (content r0) ([], False, st) = (results, hc, st1)"
  shows "\<exists>c rest nt. api_calls st' = api_calls st @ c # rest \<and>
           tool_calls st' = tool_calls st1 @ nt \<and>
           messages (params c) = round_messages msgs r0 results"
proof -
  define out where "out = negotiation_round self tm tls mx sys r0 msgs cur st"
  from round_log [of tm r0 st self tls mx sys msgs cur] assms(3) obtain c where
    rp: "round_post self tls mx sys r0 msgs cur st out c results st1"
    unfolding out_def by auto
  note d = round_postD [OF rp] and pp = round_post_params [OF rp]
  show ?thesis
  proof (cases out)
    case (Exit x)
    with assms(1,2) have "x = (res, st')" by (simp add: tool_loop_exit out_def)
    with d(1,4) Exit pp(1) show ?thesis
      by (intro exI [of _ c] exI [of _ "[]"]) simp
  next
    case (Again r m s)
    with assms(1,2) have "tool_loop self tm tls mx sys r m (cur + 1) s = (res, st')"
      by (simp add: tool_loop_again out_def)
    from tool_loop_log [OF this] obtain new nt where
      "api_calls st' = api_calls s @ new" "tool_calls st' = tool_calls s @ nt" by blast
    with d(1,4) Again pp(1) show ?thesis
      by (intro exI [of _ c] exI [of _ new] exI [of _ nt]) simp
  qed
qed

lemma generate_response_trace:
  assumes "generate_response self q h tls tmo R st = (res, st')"
  shows "\<exists>c0 cs tcs.
           api_calls st' = api_calls st @ c0 # cs \<and> tool_calls st' = tool_calls st @ tcs \<and>
           (\<exists>r0. c0 = first_call self q h tls r0) \<and>
           (case outcome c0 of
              Inl e \<Rightarrow> cs = [] \<and> tcs = []
            | Inr r \<Rightarrow>
                if stop_reason r = ''tool_use'' \<and> tmo \<noteq> None
                then negotiation_trace R tls 1 r [\<lparr>role = ''user'', msg_content = Plain q\<rparr>] cs tcs
                else cs = [] \<and> tcs = [])"
  using assms
proof (cases rule: generate_response_cases)
  case (failed e w')
  then show ?thesis
    by (intro exI [of _ "first_call self q h tls (Inl e)"] exI [of _ "[]"]) auto
next
  case (direct r w')
  then show ?thesis
    by (intro exI [of _ "first_call self q h tls (Inr r)"] exI [of _ "[]"]) auto
next
  case (loop r w' tm)
  from tool_loop_trace [OF loop(4)] obtain new nt where
    "api_calls st' = api_calls st @ first_call self q h tls (Inr r) # new"
    "tool_calls st' = tool_calls st @ nt"
    "negotiation_trace R tls 1 r [\<lparr>role = ''user'', msg_content = Plain q\<rparr>] new nt"
    by auto
  with loop(2,3) show ?thesis
    by (intro exI [of _ "first_call self q h tls (Inr r)"] exI [of _ new] exI [of _ nt]) auto
qed

lemma generate_response_error_origin:
  assumes "generate_response self q h tls tmo R st = (Inl err, st')"
  shows "outcome (last (api_calls st')) = Inl err \<or>
         (\<exists>resp. outcome (last (api_calls st')) = Inr resp \<and>
            content0_text (content resp) = Inl err)"
  using assms
proof (cases rule: generate_response_cases)
  case (failed e w')
  then show ?thesis by simp
next
  case (direct r w')
  then show ?thesis by (auto simp: return_text_def split: sum.splits)
next
  case (loop r w' tm)
  from tool_loop_log [OF loop(4)] obtain new where
    n: "api_calls st' = api_calls st @ first_call self q h tls (Inr r) # new" and
    p: "loop_post self R 1 (system_content h) (Inl err) new"
    by auto
  show ?thesis
  proof (cases "1 \<le> R")
    case True
    with p have ne: "new \<noteq> []" by (simp add: loop_post_def)
    with n have l: "last (api_calls st') = last new" by simp
    from p True show ?thesis unfolding l by (auto simp: loop_post_def)
  next
    case False
    with p show ?thesis by (simp add: loop_post_def)
  qed
qed


section \<open>The claims\<close>

lemmas run_defs =
  generate_response_def handle_tool_execution_def messages_create_def negotiation_round_def
  initial_params_def final_params_def next_params_def round_messages_def return_text_def
  init_def test_generator_def eager_generator_def mock_client_def mock_tool_manager_def
  eager_client_def failing_tool_manager_def fresh_def tool_use_response_def text_response_def
  first_call_def Let_def tool_loop.simps

lemma test_tools_nonempty [simp]: "test_tools \<noteq> []"
  by (simp add: test_tools_def)

lemma eager_client_answers: "answers_with_text (client eager_generator)"
  by (simp add: answers_with_text_def eager_generator_def init_def eager_client_def
      tool_use_response_def text_response_def)

lemma eager_client_stateless: "stateless_client (client eager_generator)"
  by (simp add: stateless_client_def eager_generator_def init_def eager_client_def)

lemma failing_tool_manager_stateless: "stateless_executor failing_tool_manager"
  by (simp add: stateless_executor_def failing_tool_manager_def)

subsection \<open>C2: the fast path without tool use\<close>

text \<open>
  C2 says: for every call whose first model response has a stop reason other than
  \<^verbatim>\<open>tool_use\<close>, exactly one Model Client call is made and the text of that response's
  first content block is returned unchanged.

  The first half holds. The second fails where the response has no first content block
  with text: the read \<^verbatim>\<open>response.content[0].text\<close> of line 95 raises. With the
  response \<^verbatim>\<open>stop_reason = "end_turn", content = []\<close> the call ends in an
  \<^verbatim>\<open>IndexError\<close>, after its one Model Client call.
\<close>

theorem empty_content_counterexample:
  "stop_reason \<lparr>stop_reason = ''end_turn'', content = []\<rparr> \<noteq> ''tool_use'' \<and>
   fst (generate_response
          (test_generator [Inr \<lparr>stop_reason = ''end_turn'', content = []\<rparr>])
          ''Test query'' None None None 2 fresh)
     = Inl IndexError"
  by (simp add: run_defs)

text \<open>
  C2 as amended: for every call whose first model response has a stop reason other than
  \<^verbatim>\<open>tool_use\<close>, exactly one Model Client call is made and no tool is run (the state
  afterwards is the state before with the world the client left and that one call
  recorded); if the content of the response begins with a text block, the text of that
  block is returned unchanged; if the content is empty the call raises
  \<^verbatim>\<open>IndexError\<close>, and if it begins with a tool-use block, \<^verbatim>\<open>AttributeError\<close>.
\<close>

theorem direct_response_single_call:
  assumes "client self (initial_params self q h tls) (world st) = (Inr r, w')"
    and "stop_reason r \<noteq> ''tool_use''"
  shows "snd (generate_response self q h tls tmo R st) =
           st\<lparr>world := w',
              api_calls := api_calls st @
                [\<lparr>site = InitialCall, params = initial_params self q h tls, outcome = Inr r\<rparr>]\<rparr> \<and>
         fst (generate_response self q h tls tmo R st) =
           (case content r of
              [] \<Rightarrow> Inl IndexError
            | Text t # bs \<Rightarrow> Inr (DirectReturn, t)
            | ToolUse i n a # bs \<Rightarrow> Inl AttributeError)"
proof -
  from assms(2) have "stop_reason r \<noteq> ''tool_use'' \<or> tmo = None" by simp
  note d = generate_response_direct [OF assms(1) this, of R]
  have "return_text DirectReturn r =
          (case content r of
              [] \<Rightarrow> Inl IndexError
            | Text t # bs \<Rightarrow> Inr (DirectReturn, t)
            | ToolUse i n a # bs \<Rightarrow> Inl AttributeError)"
    by (cases "content r" rule: content0_text.cases) (simp_all add: return_text_def)
  with d show ?thesis by (simp add: first_call_def)
qed

theorem direct_response_single_call_witness:
  "client (test_generator [Inr (text_response ''Test response'')])
     (initial_params (test_generator [Inr (text_response ''Test response'')]) ''Test query'' None None)
     (world fresh) = (Inr (text_response ''Test response''), (1, 0)) \<and>
   stop_reason (text_response ''Test response'') \<noteq> ''tool_use'' \<and>
   fst (generate_response (test_generator [Inr (text_response ''Test response'')])
          ''Test query'' None None None 2 fresh) = Inr (DirectReturn, ''Test response'') \<and>
   length (api_calls (snd (generate_response (test_generator [Inr (text_response ''Test response'')])
          ''Test query'' None None None 2 fresh))) = 1 \<and>
   tool_calls (snd (generate_response (test_generator [Inr (text_response ''Test response'')])
          ''Test query'' None None None 2 fresh)) = []"
proof -
  let ?g = "test_generator [Inr (text_response ''Test response'')]"
  have h1: "client ?g (initial_params ?g ''Test query'' None None) (world fresh) =
              (Inr (text_response ''Test response''), (1, 0))"
    by (simp add: test_generator_def init_def mock_client_def fresh_def)
  have h2: "stop_reason (text_response ''Test response'') \<noteq> ''tool_use''"
    by (simp add: text_response_def)
  from direct_response_single_call [OF h1 h2, of None 2] h1 h2 show ?thesis
    by (simp add: text_response_def fresh_def)
qed

subsection \<open>C10: a tool-use response without a tool manager\<close>

text \<open>
  C10 says: if the first model response has stop reason \<^verbatim>\<open>tool_use\<close> but
  \<^verbatim>\<open>tool_manager\<close> is \<^verbatim>\<open>None\<close>, \<^verbatim>\<open>generate_response\<close> runs no tool, makes
  no further Model Client call and returns the text attribute of that response's first
  content block; the negotiation loop is entered only when both the tool-use stop reason
  and a tool manager are present.

  All of it holds but the return: a response that asks for a tool typically consists of
  a tool-use block, which has no text, and then line 95 raises instead of returning. The
  same happens with an empty content list.
\<close>

theorem no_tool_manager_counterexample:
  "stop_reason (tool_use_response ''tool_1_id'' ''test_tool_1'' [(''param'', JString ''value'')])
     = ''tool_use'' \<and>
   fst (generate_response
          (test_generator
             [Inr (tool_use_response ''tool_1_id'' ''test_tool_1'' [(''param'', JString ''value'')])])
          ''Test query with tool'' None (Some test_tools) None 2 fresh)
     = Inl AttributeError \<and>
   fst (generate_response
          (test_generator [Inr \<lparr>stop_reason = ''tool_use'', content = []\<rparr>])
          ''Test query with tool'' None (Some test_tools) None 2 fresh)
     = Inl IndexError"
  by (simp add: run_defs)

text \<open>
  C10 as amended: if the first model response has stop reason \<^verbatim>\<open>tool_use\<close> but
  \<^verbatim>\<open>tool_manager\<close> is \<^verbatim>\<open>None\<close> (and, as well, whenever the stop reason is not
  \<^verbatim>\<open>tool_use\<close>), \<^verbatim>\<open>generate_response\<close> runs no tool and makes no further Model
  Client call; it returns the text of that response's first content block if that block
  is a text block, and raises \<^verbatim>\<open>IndexError\<close> on an empty content list and
  \<^verbatim>\<open>AttributeError\<close> on a first block without text. When the stop reason is
  \<^verbatim>\<open>tool_use\<close> and a tool manager is present, the call is
  \<^verbatim>\<open>_handle_tool_execution\<close> on the state after the first request.
\<close>

theorem loop_needs_tool_use_and_manager:
  assumes "client self (initial_params self q h tls) (world st) = (Inr r, w')"
  shows "(stop_reason r \<noteq> ''tool_use'' \<or> tmo = None \<longrightarrow>
            snd (generate_response self q h tls tmo R st) =
              st\<lparr>world := w',
                 api_calls := api_calls st @
                   [\<lparr>site = InitialCall, params = initial_params self q h tls, outcome = Inr r\<rparr>]\<rparr> \<and>
            fst (generate_response self q h tls tmo R st) =
              (case content r of
                 [] \<Rightarrow> Inl IndexError
               | Text t # bs \<Rightarrow> Inr (DirectReturn, t)
               | ToolUse i n a # bs \<Rightarrow> Inl AttributeError)) \<and>
         (\<forall>tm. stop_reason r = ''tool_use'' \<and> tmo = Some tm \<longrightarrow>
            generate_response self q h tls tmo R st =
              handle_tool_execution self r (initial_params self q h tls) tm tls R
                (st\<lparr>world := w',
                    api_calls := api_calls st @
                      [\<lparr>site = InitialCall, params = initial_params self q h tls,
                        outcome = Inr r\<rparr>]\<rparr>))"
proof (intro conjI impI allI)
  assume a: "stop_reason r \<noteq> ''tool_use'' \<or> tmo = None"
  note d = generate_response_direct [OF assms a, of R]
  from d show "snd (generate_response self q h tls tmo R st) =
              st\<lparr>world := w',
                 api_calls := api_calls st @
                   [\<lparr>site = InitialCall, params = initial_params self q h tls, outcome = Inr r\<rparr>]\<rparr>"
    by (simp add: first_call_def)
  have "return_text DirectReturn r =
          (case content r of
              [] \<Rightarrow> Inl IndexError
            | Text t # bs \<Rightarrow> Inr (DirectReturn, t)
            | ToolUse i n a # bs \<Rightarrow> Inl AttributeError)"
    by (cases "content r" rule: content0_text.cases) (simp_all add: return_text_def)
  with d show "fst (generate_response self q h tls tmo R st) =
              (case content r of
                 [] \<Rightarrow> Inl IndexError
               | Text t # bs \<Rightarrow> Inr (DirectReturn, t)
               | ToolUse i n a # bs \<Rightarrow> Inl AttributeError)"
    by simp
next
  fix tm
  assume "stop_reason r = ''tool_use'' \<and> tmo = Some tm"
  with generate_response_loop [OF assms, of tm R]
  show "generate_response self q h tls tmo R st =
              handle_tool_execution self r (initial_params self q h tls) tm tls R
                (st\<lparr>world := w',
                    api_calls := api_calls st @
                      [\<lparr>site = InitialCall, params = initial_params self q h tls,
                        outcome = Inr r\<rparr>]\<rparr>)"
    by (simp add: handle_tool_execution_def first_call_def)
qed

theorem loop_needs_tool_use_and_manager_witness:
  "client (test_generator
             [Inr \<lparr>stop_reason = ''tool_use'',
                   content = [Text ''Let me search.'',
                              ToolUse ''tool_1_id'' ''test_tool_1'' [(''param'', JString ''value'')]]\<rparr>,
              Inr (text_response ''Final response after tool use'')])
     (initial_params
        (test_generator
           [Inr \<lparr>stop_reason = ''tool_use'',
                 content = [Text ''Let me search.'',
                            ToolUse ''tool_1_id'' ''test_tool_1'' [(''param'', JString ''value'')]]\<rparr>,
            Inr (text_response ''Final response after tool use'')])
        ''Test query with tool'' None (Some test_tools))
     (world fresh)
   = (Inr \<lparr>stop_reason = ''tool_use'',
           content = [Text ''Let me search.'',
                      ToolUse ''tool_1_id'' ''test_tool_1'' [(''param'', JString ''value'')]]\<rparr>,
      (1, 0)) \<and>
   generate_response
     (test_generator
        [Inr \<lparr>stop_reason = ''tool_use'',
              content = [Text ''Let me search.'',
                         ToolUse ''tool_1_id'' ''test_tool_1'' [(''param'', JString ''value'')]]\<rparr>,
         Inr (text_response ''Final response after tool use'')])
     ''Test query with tool'' None (Some test_tools) None 2 fresh
   = (Inr (DirectReturn, ''Let me search.''),
      \<lparr>world = (1, 0),
       api_calls =
         [\<lparr>site = InitialCall,
           params = initial_params
             (test_generator
                [Inr \<lparr>stop_reason = ''tool_use'',
                      content = [Text ''Let me search.'',
                                 ToolUse ''tool_1_id'' ''test_tool_1'' [(''param'', JString ''value'')]]\<rparr>,
                 Inr (text_response ''Final response after tool use'')])
             ''Test query with tool'' None (Some test_tools),
           outcome = Inr \<lparr>stop_reason = ''tool_use'',
                          content = [Text ''Let me search.'',
                                     ToolUse ''tool_1_id'' ''test_tool_1''
                                       [(''param'', JString ''value'')]]\<rparr>\<rparr>],
       tool_calls = []\<rparr>) \<and>
   fst (generate_response
     (test_generator
        [Inr \<lparr>stop_reason = ''tool_use'',
              content = [Text ''Let me search.'',
                         ToolUse ''tool_1_id'' ''test_tool_1'' [(''param'', JString ''value'')]]\<rparr>,
         Inr (text_response ''Final response after tool use'')])
     ''Test query with tool'' None (Some test_tools)
     (Some (mock_tool_manager [Returned ''Tool execution result''])) 2 fresh)
   = Inr (NextReturn, ''Final response after tool use'')"
proof -
  let ?r = "\<lparr>stop_reason = ''tool_use'',
             content = [Text ''Let me search.'',
                        ToolUse ''tool_1_id'' ''test_tool_1'' [(''param'', JString ''value'')]]\<rparr>"
  let ?g = "test_generator [Inr ?r, Inr (text_response ''Final response after tool use'')]"
  let ?tm = "mock_tool_manager [Returned ''Tool execution result'']"
  have h: "client ?g (initial_params ?g ''Test query with tool'' None (Some test_tools)) (world fresh)
             = (Inr ?r, (1, 0))"
    by (simp add: test_generator_def init_def mock_client_def fresh_def)
  note t = loop_needs_tool_use_and_manager [OF h]
  from t [of None 2] have a:
    "generate_response ?g ''Test query with tool'' None (Some test_tools) None 2 fresh =
       (Inr (DirectReturn, ''Let me search.''),
        fresh\<lparr>world := (1, 0),
              api_calls := api_calls fresh @
                [\<lparr>site = InitialCall,
                  params = initial_params ?g ''Test query with tool'' None (Some test_tools),
                  outcome = Inr ?r\<rparr>]\<rparr>)"
    by (simp add: prod_eq_iff)
  from t [of "Some ?tm" 2] have b:
    "generate_response ?g ''Test query with tool'' None (Some test_tools) (Some ?tm) 2 fresh =
       handle_tool_execution ?g ?r (initial_params ?g ''Test query with tool'' None (Some test_tools))
         ?tm (Some test_tools) 2
         (fresh\<lparr>world := (1, 0),
              api_calls := api_calls fresh @
                [\<lparr>site = InitialCall,
                  params = initial_params ?g ''Test query with tool'' None (Some test_tools),
                  outcome = Inr ?r\<rparr>]\<rparr>)"
    by simp
  have c: "fst (handle_tool_execution ?g ?r
         (initial_params ?g ''Test query with tool'' None (Some test_tools))
         ?tm (Some test_tools) 2
         (fresh\<lparr>world := (1, 0),
              api_calls := api_calls fresh @
                [\<lparr>site = InitialCall,
                  params = initial_params ?g ''Test query with tool'' None (Some test_tools),
                  outcome = Inr ?r\<rparr>]\<rparr>)) = Inr (NextReturn, ''Final response after tool use'')"
    by (simp add: run_defs)
  from h a b c show ?thesis by (simp add: fresh_def)
qed

subsection \<open>C9: the system string\<close>

text \<open>
  C9 says: the system string sent on every Model Client call equals the fixed
  \<^verbatim>\<open>SYSTEM_PROMPT\<close> when history is absent, and equals the \<^verbatim>\<open>SYSTEM_PROMPT\<close>
  followed by a labelled \<^verbatim>\<open>Previous conversation:\<close> section containing the history
  when history is present; the same string is used on every round of the call.

  Line 71 tests \<^verbatim>\<open>if conversation_history\<close>, which an empty string fails: with the
  history \<^verbatim>\<open>""\<close>, a string that is present, the system string is the
  \<^verbatim>\<open>SYSTEM_PROMPT\<close> alone, without the section.
\<close>

theorem empty_history_counterexample:
  "map (\<lambda>c. system (params c))
     (api_calls (snd (generate_response (test_generator [Inr (text_response ''Test response'')])
        ''Test query'' (Some '''') None None 2 fresh)))
     = [SYSTEM_PROMPT] \<and>
   SYSTEM_PROMPT \<noteq>
     SYSTEM_PROMPT @ [newline, newline] @ ''Previous conversation:'' @ [newline] @ ''''"
  by (simp add: run_defs system_content_def)

text \<open>
  C9 as amended: the system string sent on every Model Client call of one
  \<^verbatim>\<open>generate_response\<close> call is the same string; it is the fixed
  \<^verbatim>\<open>SYSTEM_PROMPT\<close> when the history is \<^verbatim>\<open>None\<close> or the empty string, and the
  \<^verbatim>\<open>SYSTEM_PROMPT\<close> followed by two newlines, the line
  \<^verbatim>\<open>Previous conversation:\<close> and the history when the history is a non-empty string.
\<close>

theorem system_string_on_every_call:
  assumes "generate_response self q h tls tmo R st = (res, st')"
  shows "\<exists>new. api_calls st' = api_calls st @ new \<and> new \<noteq> [] \<and>
           (\<forall>c \<in> set new.
              system (params c) =
                (case h of
                   None \<Rightarrow> SYSTEM_PROMPT
                 | Some hist \<Rightarrow>
                     if hist = [] then SYSTEM_PROMPT
                     else SYSTEM_PROMPT @ [newline, newline] @ ''Previous conversation:'' @
                            [newline] @ hist))"
proof -
  have sc: "system_content h =
                (case h of
                   None \<Rightarrow> SYSTEM_PROMPT
                 | Some hist \<Rightarrow>
                     if hist = [] then SYSTEM_PROMPT
                     else SYSTEM_PROMPT @ [newline, newline] @ ''Previous conversation:'' @
                            [newline] @ hist)"
    by (simp add: system_content_def split: option.splits)
  from assms show ?thesis
  proof (cases rule: generate_response_cases)
    case (failed e w')
    then show ?thesis unfolding sc [symmetric]
      by (intro exI [of _ "[first_call self q h tls (Inl e)]"]) simp
  next
    case (direct r w')
    then show ?thesis unfolding sc [symmetric]
      by (intro exI [of _ "[first_call self q h tls (Inr r)]"]) simp
  next
    case (loop r w' tm)
    from tool_loop_log [OF loop(4)] obtain new where
      n: "api_calls st' = api_calls st @ first_call self q h tls (Inr r) # new" and
      p: "loop_post self R 1 (system_content h) res new"
      by auto
    from p have "\<forall>c \<in> set new. system (params c) = system_content h"
      by (simp add: loop_post_def)
    with n show ?thesis unfolding sc [symmetric]
      by (intro exI [of _ "first_call self q h tls (Inr r) # new"]) simp
  qed
qed

theorem system_string_on_every_call_witness:
  "length (api_calls (snd (generate_response eager_generator ''Test query with tool error''
      (Some ''User: hello'') (Some test_tools) (Some failing_tool_manager) 2 fresh))) = 3 \<and>
   list_all
     (\<lambda>c. system (params c) =
        SYSTEM_PROMPT @ [newline, newline] @ ''Previous conversation:'' @ [newline] @ ''User: hello'')
     (api_calls (snd (generate_response eager_generator ''Test query with tool error''
        (Some ''User: hello'') (Some test_tools) (Some failing_tool_manager) 2 fresh)))"
proof -
  let ?run = "generate_response eager_generator ''Test query with tool error''
      (Some ''User: hello'') (Some test_tools) (Some failing_tool_manager) 2 fresh"
  have h: "?run = (fst ?run, snd ?run)" by simp
  from system_string_on_every_call [OF h] have
    "\<forall>c \<in> set (api_calls (snd ?run)). system (params c) =
        SYSTEM_PROMPT @ [newline, newline] @ ''Previous conversation:'' @ [newline] @ ''User: hello''"
    by (auto simp: fresh_def)
  moreover have "length (api_calls (snd ?run)) = 3"
    by (simp add: run_defs)
  ultimately show ?thesis by (simp add: list_all_iff)
qed

subsection \<open>C1: at most R + 1 Model Client calls, the wrap-up call without tools\<close>

text \<open>
  C1: for every call of \<^verbatim>\<open>generate_response\<close> with \<^verbatim>\<open>max_tool_rounds = R\<close>,
  \<open>R \<ge> 1\<close>, the number of Model Client calls is at most \<open>R + 1\<close>. When the first
  model response signals tool use and a tool manager is supplied, the calls after the
  first follow \<open>wrap_up_schedule\<close> from round 1: the call that answers a tool-use
  response is made without \<^verbatim>\<open>tools\<close> and \<^verbatim>\<open>tool_choice\<close>, and is the last call,
  exactly when that response has no tool-use block (no tool was invoked) or the round is
  the last one (the rounds are exhausted); before that, a call carries the tools of the
  request, and the negotiation goes on only with a response that signals tool use
  again. Otherwise the first call is the only one. The call of line 158 is that wrap-up
  call: it is without tools, it can only be the last call, and it is the last call
  whenever \<open>R + 1\<close> calls are made and whenever the result comes from the return of
  line 159.
\<close>

theorem model_calls_bounded_by_rounds:
  assumes "1 \<le> R"
    and "generate_response self q h tls tmo R st = (res, st')"
  shows "\<exists>new. api_calls st' = api_calls st @ new \<and>
           int (length new) \<le> R + 1 \<and>
           new \<noteq> [] \<and>
           params (hd new) = initial_params self q h tls \<and>
           (case outcome (hd new) of
              Inl e \<Rightarrow> tl new = []
            | Inr r \<Rightarrow>
                if stop_reason r = ''tool_use'' \<and> tmo \<noteq> None
                then wrap_up_schedule R tls 1 r (tl new)
                else tl new = []) \<and>
           (\<forall>c \<in> set new. site c = FinalCall \<longrightarrow>
              tools (params c) = None \<and> tool_choice_param (params c) = None) \<and>
           (\<forall>c \<in> set (butlast new). site c \<noteq> FinalCall) \<and>
           (int (length new) = R + 1 \<longrightarrow> site (last new) = FinalCall) \<and>
           (\<forall>t. res = Inr (FinalReturn, t) \<longrightarrow> site (last new) = FinalCall)"
  using assms(2)
proof (cases rule: generate_response_cases)
  case (failed e w')
  with assms(1) show ?thesis
    by (intro exI [of _ "[first_call self q h tls (Inl e)]"]) simp
next
  case (direct r w')
  with assms(1) show ?thesis
    by (intro exI [of _ "[first_call self q h tls (Inr r)]"])
       (auto simp: return_text_def split: sum.splits)
next
  case (loop r w' tm)
  let ?c0 = "first_call self q h tls (Inr r)"
  from tool_loop_log [OF loop(4)] obtain new where
    n: "api_calls st' = api_calls st @ ?c0 # new" and
    p: "loop_post self R 1 (system_content h) res new"
    by auto
  from tool_loop_trace [OF loop(4)] obtain new' nt where
    "api_calls st' = api_calls st @ ?c0 # new'" and
    tr: "negotiation_trace R tls 1 r [\<lparr>role = ''user'', msg_content = Plain q\<rparr>] new' nt"
    by auto
  with n have "new' = new" by simp
  with trace_schedule [OF tr] have sched: "wrap_up_schedule R tls 1 r new" by simp
  from p assms(1) have ne: "new \<noteq> []" and len: "int (length new) \<le> R"
    and fin: "\<forall>c \<in> set new. site c \<noteq> InitialCall \<and>
                (site c = FinalCall \<longrightarrow> tools (params c) = None \<and> tool_choice_param (params c) = None)"
    and bl: "\<forall>c \<in> set (butlast new). site c = NextCall"
    and nx: "site (last new) = NextCall \<longrightarrow> int (length new) \<le> R - 1"
    and rs: "\<forall>t. res = Inr (FinalReturn, t) \<longrightarrow> site (last new) = FinalCall"
    by (auto simp: loop_post_def)
  from ne fin have lst: "site (last new) \<noteq> InitialCall" by simp
  have full: "int (length (?c0 # new)) = R + 1 \<longrightarrow> site (last (?c0 # new)) = FinalCall"
  proof
    assume "int (length (?c0 # new)) = R + 1"
    then have "int (length new) = R" by simp
    with nx have "site (last new) \<noteq> NextCall" by auto
    with lst ne show "site (last (?c0 # new)) = FinalCall"
      by (cases "site (last new)") simp_all
  qed
  have "int (length (?c0 # new)) \<le> R + 1" using len by simp
  moreover have "?c0 # new \<noteq> []" and "params (hd (?c0 # new)) = initial_params self q h tls"
    by simp_all
  moreover have "case outcome (hd (?c0 # new)) of
              Inl e \<Rightarrow> tl (?c0 # new) = []
            | Inr r \<Rightarrow>
                if stop_reason r = ''tool_use'' \<and> tmo \<noteq> None
                then wrap_up_schedule R tls 1 r (tl (?c0 # new))
                else tl (?c0 # new) = []"
    using sched loop(2,3) by simp
  moreover have "\<forall>c \<in> set (?c0 # new). site c = FinalCall \<longrightarrow>
              tools (params c) = None \<and> tool_choice_param (params c) = None"
    using fin by simp
  moreover have "\<forall>c \<in> set (butlast (?c0 # new)). site c \<noteq> FinalCall"
    using bl ne by simp
  moreover have "\<forall>t. res = Inr (FinalReturn, t) \<longrightarrow> site (last (?c0 # new)) = FinalCall"
    using rs ne by simp
  ultimately show ?thesis using n full by blast
qed

theorem model_calls_bounded_by_rounds_witness:
  "(1 :: int) \<le> 2 \<and>
   int (length (api_calls (snd (generate_response
      (test_generator
         [Inr (tool_use_response ''tool_1_id'' ''test_tool_1'' [(''param1'', JString ''value1'')]),
          Inr (tool_use_response ''tool_2_id'' ''test_tool_2'' [(''param2'', JString ''value2'')]),
          Inr (text_response ''Final response after sequential tool use'')])
      ''Test query with sequential tools'' None (Some test_tools)
      (Some (mock_tool_manager [Returned ''Tool 1 result'', Returned ''Tool 2 result'']))
      2 fresh)))) \<le> 2 + 1 \<and>
   map (\<lambda>c. (site c, tools (params c))) (api_calls (snd (generate_response
      (test_generator
         [Inr (tool_use_response ''tool_1_id'' ''test_tool_1'' [(''param1'', JString ''value1'')]),
          Inr (tool_use_response ''tool_2_id'' ''test_tool_2'' [(''param2'', JString ''value2'')]),
          Inr (text_response ''Final response after sequential tool use'')])
      ''Test query with sequential tools'' None (Some test_tools)
      (Some (mock_tool_manager [Returned ''Tool 1 result'', Returned ''Tool 2 result'']))
      2 fresh)))
     = [(InitialCall, Some test_tools), (NextCall, Some test_tools), (FinalCall, None)] \<and>
   fst (generate_response
      (test_generator
         [Inr (tool_use_response ''tool_1_id'' ''test_tool_1'' [(''param1'', JString ''value1'')]),
          Inr (tool_use_response ''tool_2_id'' ''test_tool_2'' [(''param2'', JString ''value2'')]),
          Inr (text_response ''Final response after sequential tool use'')])
      ''Test query with sequential tools'' None (Some test_tools)
      (Some (mock_tool_manager [Returned ''Tool 1 result'', Returned ''Tool 2 result'']))
      2 fresh)
     = Inr (FinalReturn, ''Final response after sequential tool use'') \<and>
   int (length (api_calls (snd (generate_response
      (test_generator
         [Inr \<lparr>stop_reason = ''tool_use'', content = [Text ''Let me think.'']\<rparr>,
          Inr (text_response ''Final response'')])
      ''Test query'' None (Some test_tools) (Some (mock_tool_manager [])) 2 fresh)))) \<le> 2 + 1 \<and>
   map (\<lambda>c. (site c, tools (params c))) (api_calls (snd (generate_response
      (test_generator
         [Inr \<lparr>stop_reason = ''tool_use'', content = [Text ''Let me think.'']\<rparr>,
          Inr (text_response ''Final response'')])
      ''Test query'' None (Some test_tools) (Some (mock_tool_manager [])) 2 fresh)))
     = [(InitialCall, Some test_tools), (FinalCall, None)] \<and>
   wrap_up_schedule 2 (Some test_tools) 1
     \<lparr>stop_reason = ''tool_use'', content = [Text ''Let me think.'']\<rparr>
     (tl (api_calls (snd (generate_response
      (test_generator
         [Inr \<lparr>stop_reason = ''tool_use'', content = [Text ''Let me think.'']\<rparr>,
          Inr (text_response ''Final response'')])
      ''Test query'' None (Some test_tools) (Some (mock_tool_manager [])) 2 fresh))))"
proof -
  let ?a = "generate_response
      (test_generator
         [Inr (tool_use_response ''tool_1_id'' ''test_tool_1'' [(''param1'', JString ''value1'')]),
          Inr (tool_use_response ''tool_2_id'' ''test_tool_2'' [(''param2'', JString ''value2'')]),
          Inr (text_response ''Final response after sequential tool use'')])
      ''Test query with sequential tools'' None (Some test_tools)
      (Some (mock_tool_manager [Returned ''Tool 1 result'', Returned ''Tool 2 result'']))
      2 fresh"
  let ?r = "\<lparr>stop_reason = ''tool_use'', content = [Text ''Let me think.'']\<rparr>"
  let ?b = "generate_response
      (test_generator [Inr ?r, Inr (text_response ''Final response'')])
      ''Test query'' None (Some test_tools) (Some (mock_tool_manager [])) 2 fresh"
  have h1: "(1 :: int) \<le> 2" by simp
  have ha: "?a = (fst ?a, snd ?a)" and hb: "?b = (fst ?b, snd ?b)" by simp_all
  from model_calls_bounded_by_rounds [OF h1 ha]
  have a: "int (length (api_calls (snd ?a))) \<le> 2 + 1"
    by (auto simp: fresh_def)
  have b: "map (\<lambda>c. (site c, tools (params c))) (api_calls (snd ?a))
     = [(InitialCall, Some test_tools), (NextCall, Some test_tools), (FinalCall, None)]"
    by (simp add: run_defs test_tools_def)
  have c: "fst ?a = Inr (FinalReturn, ''Final response after sequential tool use'')"
    by (simp add: run_defs)
  have o: "outcome (hd (api_calls (snd ?b))) = Inr ?r"
    by (simp add: run_defs)
  from model_calls_bounded_by_rounds [OF h1 hb] obtain new where
    n: "api_calls (snd ?b) = api_calls fresh @ new" and
    l: "int (length new) \<le> 2 + 1" and
    s: "case outcome (hd new) of
              Inl e \<Rightarrow> tl new = []
            | Inr r \<Rightarrow>
                if stop_reason r = ''tool_use'' \<and> Some (mock_tool_manager []) \<noteq> None
                then wrap_up_schedule 2 (Some test_tools) 1 r (tl new)
                else tl new = []"
    by blast
  from n have eq: "new = api_calls (snd ?b)" by (simp add: fresh_def)
  from l eq have d: "int (length (api_calls (snd ?b))) \<le> 2 + 1" by simp
  from s o have e: "wrap_up_schedule 2 (Some test_tools) 1 ?r (tl (api_calls (snd ?b)))"
    unfolding eq by simp
  have f: "map (\<lambda>c. (site c, tools (params c))) (api_calls (snd ?b))
     = [(InitialCall, Some test_tools), (FinalCall, None)]"
    by (simp add: run_defs test_tools_def)
  from h1 a b c d e f show ?thesis by blast
qed

subsection \<open>C5: the fallback string is out of reach\<close>

text \<open>
  For contrast: with \<^verbatim>\<open>max_tool_rounds = 0\<close> the loop body never runs, and a
  tool-use response with a tool manager present yields the fallback string of line 184.
\<close>

lemma fallback_without_rounds:
  "fst (generate_response
          (test_generator
             [Inr (tool_use_response ''tool_1_id'' ''test_tool_1'' [(''param'', JString ''value'')])])
          ''Test query with tool'' None (Some test_tools)
          (Some (mock_tool_manager [Returned ''Tool execution result''])) 0 fresh)
     = Inr (FallbackReturn, ''Maximum tool calling rounds reached without final response.'')"
  by (simp add: run_defs fallback_text_def)

text \<open>
  C5 says: for every call with \<^verbatim>\<open>max_tool_rounds\<close> at least 1 the fallback string of
  line 184 is never returned: the negotiation loop always exits through one of its
  return statements, so the caller always receives text taken from a Model Client
  response.

  The fallback is indeed never returned. But the loop does not always exit through a
  return statement, and the caller does not always receive text: the reads
  \<^verbatim>\<open>content[0].text\<close> of lines 159 and 178 are unguarded. With one round, a tool
  manager, and a response to the wrap-up call whose content is empty, the call ends in
  an \<^verbatim>\<open>IndexError\<close>; with a tool-use block there, in an \<^verbatim>\<open>AttributeError\<close>.
\<close>

theorem wrap_up_without_text_counterexample:
  "(1 :: int) \<le> 1 \<and>
   fst (generate_response
          (test_generator
             [Inr (tool_use_response ''tool_1_id'' ''test_tool_1'' [(''param'', JString ''value'')]),
              Inr \<lparr>stop_reason = ''end_turn'', content = []\<rparr>])
          ''Test query with tool'' None (Some test_tools)
          (Some (mock_tool_manager [Returned ''Tool execution result''])) 1 fresh)
     = Inl IndexError \<and>
   fst (generate_response
          (test_generator
             [Inr (tool_use_response ''tool_1_id'' ''test_tool_1'' [(''param'', JString ''value'')]),
              Inr (tool_use_response ''tool_1_id'' ''test_tool_1'' [(''param'', JString ''value'')])])
          ''Test query with tool'' None (Some test_tools)
          (Some (mock_tool_manager [Returned ''Tool execution result''])) 1 fresh)
     = Inl AttributeError"
  by (simp add: run_defs)

text \<open>
  C5 as amended: for every call of \<^verbatim>\<open>generate_response\<close> with
  \<^verbatim>\<open>max_tool_rounds\<close> at least 1 the fallback string of line 184 is never returned.
  The call ends in one of two ways. Either it returns, and then the string returned is
  the text of the first content block of the response to the last Model Client call; or
  it raises, and then the exception is the one raised by the last Model Client call, or
  the \<^verbatim>\<open>IndexError\<close> or \<^verbatim>\<open>AttributeError\<close> of reading the text of the response
  to that call. With a tool manager and a Model Client that answers (it never fails,
  and its response begins with a text block whenever its text is read) the call
  returns.
\<close>

theorem fallback_never_returned:
  assumes "1 \<le> R"
    and "generate_response self q h tls tmo R st = (res, st')"
  shows "(\<forall>t. res \<noteq> Inr (FallbackReturn, t)) \<and>
         (\<forall>x t. res = Inr (x, t) \<longrightarrow>
            (\<exists>resp bs. outcome (last (api_calls st')) = Inr resp \<and> content resp = Text t # bs)) \<and>
         (\<forall>err. res = Inl err \<longrightarrow>
            outcome (last (api_calls st')) = Inl err \<or>
            (\<exists>resp. outcome (last (api_calls st')) = Inr resp \<and>
               (content resp = [] \<and> err = IndexError \<or>
                (\<exists>i n a bs. content resp = ToolUse i n a # bs) \<and> err = AttributeError))) \<and>
         (answers_with_text (client self) \<and> tmo \<noteq> None \<longrightarrow> (\<exists>x t. res = Inr (x, t)))"
proof -
  have live: "answers_with_text (client self) \<and> tmo \<noteq> None \<longrightarrow> (\<exists>x t. res = Inr (x, t))"
  proof
    assume a: "answers_with_text (client self) \<and> tmo \<noteq> None"
    then obtain tm where "tmo = Some tm" by auto
    with generate_response_answers [of self q h tls tm R st] a assms(2)
    show "\<exists>x t. res = Inr (x, t)" by simp
  qed
  have read: "content resp = [] \<and> err = IndexError \<or>
              (\<exists>i n a bs. content resp = ToolUse i n a # bs) \<and> err = AttributeError"
    if "content0_text (content resp) = Inl err" for resp err
    using that by (cases "content resp" rule: content0_text.cases) auto
  have raise: "\<forall>err. res = Inl err \<longrightarrow>
            outcome (last (api_calls st')) = Inl err \<or>
            (\<exists>resp. outcome (last (api_calls st')) = Inr resp \<and>
               (content resp = [] \<and> err = IndexError \<or>
                (\<exists>i n a bs. content resp = ToolUse i n a # bs) \<and> err = AttributeError))"
  proof (intro allI impI)
    fix err
    assume "res = Inl err"
    with assms(2) have "generate_response self q h tls tmo R st = (Inl err, st')" by simp
    from generate_response_error_origin [OF this] read
    show "outcome (last (api_calls st')) = Inl err \<or>
            (\<exists>resp. outcome (last (api_calls st')) = Inr resp \<and>
               (content resp = [] \<and> err = IndexError \<or>
                (\<exists>i n a bs. content resp = ToolUse i n a # bs) \<and> err = AttributeError))"
      by blast
  qed
  from assms(2) have "(\<forall>t. res \<noteq> Inr (FallbackReturn, t)) \<and>
         (\<forall>x t. res = Inr (x, t) \<longrightarrow>
            (\<exists>resp bs. outcome (last (api_calls st')) = Inr resp \<and> content resp = Text t # bs))"
  proof (cases rule: generate_response_cases)
    case (failed e w')
    then show ?thesis by simp
  next
    case (direct r w')
    then show ?thesis
      by (auto simp: return_text_def content0_text_Inr split: sum.splits)
  next
    case (loop r w' tm)
    from tool_loop_log [OF loop(4)] obtain new where
      n: "api_calls st' = api_calls st @ first_call self q h tls (Inr r) # new" and
      p: "loop_post self R 1 (system_content h) res new"
      by auto
    from p assms(1) have ne: "new \<noteq> []" by (simp add: loop_post_def)
    with n have l: "last (api_calls st') = last new" by simp
    from p assms(1) show ?thesis unfolding l
      by (auto simp: loop_post_def content0_text_Inr split: sum.splits)
  qed
  with live raise show ?thesis by blast
qed

theorem fallback_never_returned_witness:
  "(1 :: int) \<le> 1 \<and>
   answers_with_text (client eager_generator) \<and>
   Some failing_tool_manager \<noteq> None \<and>
   fst (generate_response eager_generator ''Test query with tool'' None (Some test_tools)
          (Some failing_tool_manager) 1 fresh)
     \<noteq> Inr (FallbackReturn, ''Maximum tool calling rounds reached without final response.'') \<and>
   fst (generate_response eager_generator ''Test query with tool'' None (Some test_tools)
          (Some failing_tool_manager) 1 fresh)
     = Inr (FinalReturn, ''Final response after error'') \<and>
   outcome (last (api_calls (snd (generate_response eager_generator ''Test query with tool'' None
          (Some test_tools) (Some failing_tool_manager) 1 fresh))))
     = Inr (text_response ''Final response after error'') \<and>
   fst (generate_response
          (test_generator
             [Inr (tool_use_response ''tool_1_id'' ''test_tool_1'' [(''param'', JString ''value'')]),
              Inr \<lparr>stop_reason = ''end_turn'', content = []\<rparr>])
          ''Test query with tool'' None (Some test_tools)
          (Some (mock_tool_manager [Returned ''Tool execution result''])) 1 fresh)
     = Inl IndexError \<and>
   outcome (last (api_calls (snd (generate_response
          (test_generator
             [Inr (tool_use_response ''tool_1_id'' ''test_tool_1'' [(''param'', JString ''value'')]),
              Inr \<lparr>stop_reason = ''end_turn'', content = []\<rparr>])
          ''Test query with tool'' None (Some test_tools)
          (Some (mock_tool_manager [Returned ''Tool execution result''])) 1 fresh))))
     = Inr \<lparr>stop_reason = ''end_turn'', content = []\<rparr>"
proof -
  let ?run = "generate_response eager_generator ''Test query with tool'' None (Some test_tools)
          (Some failing_tool_manager) 1 fresh"
  let ?bad = "generate_response
          (test_generator
             [Inr (tool_use_response ''tool_1_id'' ''test_tool_1'' [(''param'', JString ''value'')]),
              Inr \<lparr>stop_reason = ''end_turn'', content = []\<rparr>])
          ''Test query with tool'' None (Some test_tools)
          (Some (mock_tool_manager [Returned ''Tool execution result''])) 1 fresh"
  have h1: "(1 :: int) \<le> 1" by simp
  have h2: "?run = (fst ?run, snd ?run)" and h3: "?bad = (fst ?bad, snd ?bad)" by simp_all
  note t = fallback_never_returned [OF h1 h2]
  from t have a: "fst ?run \<noteq>
      Inr (FallbackReturn, ''Maximum tool calling rounds reached without final response.'')"
    by blast
  from t eager_client_answers have "\<exists>x t. fst ?run = Inr (x, t)" by blast
  moreover have b: "fst ?run = Inr (FinalReturn, ''Final response after error'')"
    by (simp add: run_defs)
  moreover have c: "outcome (last (api_calls (snd ?run)))
     = Inr (text_response ''Final response after error'')"
    by (simp add: run_defs)
  moreover have d: "fst ?bad = Inl IndexError"
    by (simp add: run_defs)
  moreover from fallback_never_returned [OF h1 h3] d
  have "outcome (last (api_calls (snd ?bad))) = Inl IndexError \<or>
        (\<exists>resp. outcome (last (api_calls (snd ?bad))) = Inr resp \<and>
           (content resp = [] \<and> IndexError = IndexError \<or>
            (\<exists>i n a bs. content resp = ToolUse i n a # bs) \<and> IndexError = AttributeError))"
    by blast
  moreover have e: "outcome (last (api_calls (snd ?bad)))
     = Inr \<lparr>stop_reason = ''end_turn'', content = []\<rparr>"
    by (simp add: run_defs)
  ultimately show ?thesis using a eager_client_answers by simp
qed

subsection \<open>C6: the roles of the transcript alternate\<close>

text \<open>
  C6: the transcript sent on every Model Client call of a \<^verbatim>\<open>generate_response\<close>
  call is not empty, starts with a user message and has the roles user, assistant, user,
  ...; no two consecutive messages have the same role. This holds for every sequence of
  model responses, also for a tool-use response without any tool-use block. A transcript
  between two calls is a prefix of the one sent next (the loop only appends), and every
  prefix alternates in the same way.
\<close>

theorem transcript_roles_alternate:
  assumes "generate_response self q h tls tmo R st = (res, st')"
  shows "\<exists>new. api_calls st' = api_calls st @ new \<and> new \<noteq> [] \<and>
           (\<forall>c \<in> set new.
              messages (params c) \<noteq> [] \<and>
              role (hd (messages (params c))) = ''user'' \<and>
              strictly_alternating (messages (params c)) \<and>
              (\<forall>k. strictly_alternating (take k (messages (params c)))) \<and>
              (\<forall>i. Suc i < length (messages (params c)) \<longrightarrow>
                 role (messages (params c) ! i) \<noteq> role (messages (params c) ! Suc i)))"
proof -
  have good: "messages (params c) \<noteq> [] \<and>
              role (hd (messages (params c))) = ''user'' \<and>
              strictly_alternating (messages (params c)) \<and>
              (\<forall>k. strictly_alternating (take k (messages (params c)))) \<and>
              (\<forall>i. Suc i < length (messages (params c)) \<longrightarrow>
                 role (messages (params c) ! i) \<noteq> role (messages (params c) ! Suc i))"
    if r: "roles_from True (messages (params c))" and n: "messages (params c) \<noteq> []" for c
  proof -
    from r n have "role (hd (messages (params c))) = ''user''"
      by (cases "messages (params c)") simp_all
    with r n roles_from_take [OF r] roles_from_adjacent [OF r] show ?thesis
      by (simp add: strictly_alternating_def)
  qed
  have first: "roles_from True (messages (params (first_call self q h tls r0))) \<and>
               messages (params (first_call self q h tls r0)) \<noteq> []" for r0
    by simp
  from assms show ?thesis
  proof (cases rule: generate_response_cases)
    case (failed e w')
    with good [of "first_call self q h tls (Inl e)"] first [of "Inl e"] show ?thesis
      by (intro exI [of _ "[first_call self q h tls (Inl e)]"]) simp
  next
    case (direct r w')
    with good [of "first_call self q h tls (Inr r)"] first [of "Inr r"] show ?thesis
      by (intro exI [of _ "[first_call self q h tls (Inr r)]"]) simp
  next
    case (loop r w' tm)
    have "roles_from True [\<lparr>role = ''user'', msg_content = Plain q\<rparr>]"
      and "odd (length [\<lparr>role = ''user'', msg_content = Plain q\<rparr>])" by simp_all
    from tool_loop_roles [OF loop(4) this] obtain new where
      n: "api_calls st' = api_calls st @ first_call self q h tls (Inr r) # new" and
      p: "\<forall>c \<in> set new. roles_from True (messages (params c)) \<and> messages (params c) \<noteq> []"
      by auto
    from p first [of "Inr r"] have
      "\<forall>c \<in> set (first_call self q h tls (Inr r) # new).
         roles_from True (messages (params c)) \<and> messages (params c) \<noteq> []"
      by simp
    with good have "\<forall>c \<in> set (first_call self q h tls (Inr r) # new).
              messages (params c) \<noteq> [] \<and>
              role (hd (messages (params c))) = ''user'' \<and>
              strictly_alternating (messages (params c)) \<and>
              (\<forall>k. strictly_alternating (take k (messages (params c)))) \<and>
              (\<forall>i. Suc i < length (messages (params c)) \<longrightarrow>
                 role (messages (params c) ! i) \<noteq> role (messages (params c) ! Suc i))"
      by blast
    with n show ?thesis by blast
  qed
qed

theorem transcript_roles_alternate_witness:
  "map (\<lambda>c. map role (messages (params c)))
     (api_calls (snd (generate_response eager_generator ''Test query with tool'' None
        (Some test_tools) (Some failing_tool_manager) 2 fresh)))
     = [[''user''],
        [''user'', ''assistant'', ''user''],
        [''user'', ''assistant'', ''user'', ''assistant'', ''user'']] \<and>
   list_all (\<lambda>c. strictly_alternating (messages (params c)))
     (api_calls (snd (generate_response eager_generator ''Test query with tool'' None
        (Some test_tools) (Some failing_tool_manager) 2 fresh))) \<and>
   map (\<lambda>c. map role (messages (params c)))
     (api_calls (snd (generate_response
        (test_generator
           [Inr \<lparr>stop_reason = ''tool_use'', content = []\<rparr>,
            Inr (text_response ''Final response'')])
        ''Test query with tool'' None (Some test_tools)
        (Some (mock_tool_manager [])) 2 fresh)))
     = [[''user''], [''user'', ''assistant'']] \<and>
   list_all (\<lambda>c. strictly_alternating (messages (params c)))
     (api_calls (snd (generate_response
        (test_generator
           [Inr \<lparr>stop_reason = ''tool_use'', content = []\<rparr>,
            Inr (text_response ''Final response'')])
        ''Test query with tool'' None (Some test_tools)
        (Some (mock_tool_manager [])) 2 fresh)))"
proof -
  let ?a = "generate_response eager_generator ''Test query with tool'' None
        (Some test_tools) (Some failing_tool_manager) 2 fresh"
  let ?b = "generate_response
        (test_generator
           [Inr \<lparr>stop_reason = ''tool_use'', content = []\<rparr>,
            Inr (text_response ''Final response'')])
        ''Test query with tool'' None (Some test_tools)
        (Some (mock_tool_manager [])) 2 fresh"
  have ha: "?a = (fst ?a, snd ?a)" and hb: "?b = (fst ?b, snd ?b)" by simp_all
  from transcript_roles_alternate [OF ha]
  have a: "list_all (\<lambda>c. strictly_alternating (messages (params c))) (api_calls (snd ?a))"
    by (auto simp: fresh_def list_all_iff)
  from transcript_roles_alternate [OF hb]
  have b: "list_all (\<lambda>c. strictly_alternating (messages (params c))) (api_calls (snd ?b))"
    by (auto simp: fresh_def list_all_iff)
  have c: "map (\<lambda>c. map role (messages (params c))) (api_calls (snd ?a))
     = [[''user''],
        [''user'', ''assistant'', ''user''],
        [''user'', ''assistant'', ''user'', ''assistant'', ''user'']]"
    by (simp add: run_defs)
  have d: "map (\<lambda>c. map role (messages (params c))) (api_calls (snd ?b))
     = [[''user''], [''user'', ''assistant'']]"
    by (simp add: run_defs)
  from a b c d show ?thesis by blast
qed

subsection \<open>C7: tools run one after the other, in the order of the blocks\<close>

text \<open>
  C7: within one model response the executor is invoked once per tool-use block, in the
  order in which the blocks appear in the content list, and the tool results appear in
  that same order. The invocations are sequential: the one for a block runs in the world
  left by the invocations for all the blocks before it, those being complete (recorded,
  their results collected), and the blocks after it are processed from the state it
  leaves.
\<close>

theorem tools_run_in_block_order:
  assumes "execute_tool_calls tm bs (rs, h, st) = (rs', h', st')"
  shows "tool_calls st' = tool_calls st @ map (\<lambda>(i, n, a). (n, a)) (tool_uses bs) \<and>
         (\<exists>new. rs' = rs @ new \<and> map tool_use_id new = map fst (tool_uses bs)) \<and>
         (\<forall>xs i n a ys. bs = xs @ ToolUse i n a # ys \<longrightarrow>
            (\<exists>rs1 h1 st1 out w1.
               execute_tool_calls tm xs (rs, h, st) = (rs1, h1, st1) \<and>
               tool_calls st1 = tool_calls st @ map (\<lambda>(i, n, a). (n, a)) (tool_uses xs) \<and>
               tm n a (world st1) = (out, w1) \<and>
               (rs', h', st') =
                 execute_tool_calls tm ys
                   (rs1 @ [\<lparr>result_type = ''tool_result'', tool_use_id = i,
                            result_content =
                              (case out of
                                 Returned s \<Rightarrow> s
                               | Raised e \<Rightarrow> ''Error executing tool: '' @ e)\<rparr>],
                    True,
                    st1\<lparr>world := w1, tool_calls := tool_calls st1 @ [(n, a)]\<rparr>)))"
proof (intro conjI allI impI)
  from execute_tool_calls_log [OF assms]
  show "tool_calls st' = tool_calls st @ map (\<lambda>(i, n, a). (n, a)) (tool_uses bs)"
    and "\<exists>new. rs' = rs @ new \<and> map tool_use_id new = map fst (tool_uses bs)"
    by blast+
next
  fix xs i n a ys
  assume bs: "bs = xs @ ToolUse i n a # ys"
  obtain rs1 h1 st1 where x: "execute_tool_calls tm xs (rs, h, st) = (rs1, h1, st1)"
    by (cases "execute_tool_calls tm xs (rs, h, st)") auto
  obtain out w1 where t: "tm n a (world st1) = (out, w1)"
    by (cases "tm n a (world st1)") auto
  from execute_tool_calls_log [OF x]
  have l: "tool_calls st1 = tool_calls st @ map (\<lambda>(i, n, a). (n, a)) (tool_uses xs)"
    by blast
  from assms bs x t have
    "(rs', h', st') =
       execute_tool_calls tm ys
         (rs1 @ [\<lparr>result_type = ''tool_result'', tool_use_id = i,
                  result_content =
                    (case out of
                       Returned s \<Rightarrow> s
                     | Raised e \<Rightarrow> ''Error executing tool: '' @ e)\<rparr>],
          True,
          st1\<lparr>world := w1, tool_calls := tool_calls st1 @ [(n, a)]\<rparr>)"
    by (simp add: execute_tool_calls_append)
  with x l t show "\<exists>rs1 h1 st1 out w1.
               execute_tool_calls tm xs (rs, h, st) = (rs1, h1, st1) \<and>
               tool_calls st1 = tool_calls st @ map (\<lambda>(i, n, a). (n, a)) (tool_uses xs) \<and>
               tm n a (world st1) = (out, w1) \<and>
               (rs', h', st') =
                 execute_tool_calls tm ys
                   (rs1 @ [\<lparr>result_type = ''tool_result'', tool_use_id = i,
                            result_content =
                              (case out of
                                 Returned s \<Rightarrow> s
                               | Raised e \<Rightarrow> ''Error executing tool: '' @ e)\<rparr>],
                    True,
                    st1\<lparr>world := w1, tool_calls := tool_calls st1 @ [(n, a)]\<rparr>)"
    by blast
qed

theorem tools_run_in_block_order_witness:
  "execute_tool_calls
     (mock_tool_manager [Returned ''Tool 1 result'', Raised ''Tool 2 failed''])
     [Text ''Let me look.'',
      ToolUse ''tool_1_id'' ''test_tool_1'' [(''param1'', JString ''value1'')],
      ToolUse ''tool_2_id'' ''test_tool_2'' [(''param2'', JString ''value2'')]]
     ([], False, fresh)
   = ([\<lparr>result_type = ''tool_result'', tool_use_id = ''tool_1_id'',
        result_content = ''Tool 1 result''\<rparr>,
       \<lparr>result_type = ''tool_result'', tool_use_id = ''tool_2_id'',
        result_content = ''Error executing tool: Tool 2 failed''\<rparr>],
      True,
      \<lparr>world = (0, 2), api_calls = [],
       tool_calls = [(''test_tool_1'', [(''param1'', JString ''value1'')]),
                     (''test_tool_2'', [(''param2'', JString ''value2'')])]\<rparr>) \<and>
   tool_calls \<lparr>world = (0 :: nat, 2 :: nat), api_calls = [],
       tool_calls = [(''test_tool_1'', [(''param1'', JString ''value1'')]),
                     (''test_tool_2'', [(''param2'', JString ''value2'')])]\<rparr>
   = tool_calls fresh @
       map (\<lambda>(i, n, a). (n, a))
         (tool_uses
            [Text ''Let me look.'',
             ToolUse ''tool_1_id'' ''test_tool_1'' [(''param1'', JString ''value1'')],
             ToolUse ''tool_2_id'' ''test_tool_2'' [(''param2'', JString ''value2'')]]) \<and>
   execute_tool_calls
     (mock_tool_manager [Returned ''Tool 1 result'', Raised ''Tool 2 failed''])
     [Text ''Let me look.'',
      ToolUse ''tool_1_id'' ''test_tool_1'' [(''param1'', JString ''value1'')]]
     ([], False, fresh)
   = ([\<lparr>result_type = ''tool_result'', tool_use_id = ''tool_1_id'',
        result_content = ''Tool 1 result''\<rparr>],
      True,
      \<lparr>world = (0, 1), api_calls = [],
       tool_calls = [(''test_tool_1'', [(''param1'', JString ''value1'')])]\<rparr>)"
proof -
  let ?tm = "mock_tool_manager [Returned ''Tool 1 result'', Raised ''Tool 2 failed'']"
  let ?b1 = "ToolUse ''tool_1_id'' ''test_tool_1'' [(''param1'', JString ''value1'')]"
  let ?b2 = "ToolUse ''tool_2_id'' ''test_tool_2'' [(''param2'', JString ''value2'')]"
  have h: "execute_tool_calls ?tm [Text ''Let me look.'', ?b1, ?b2] ([], False, fresh)
   = ([\<lparr>result_type = ''tool_result'', tool_use_id = ''tool_1_id'',
        result_content = ''Tool 1 result''\<rparr>,
       \<lparr>result_type = ''tool_result'', tool_use_id = ''tool_2_id'',
        result_content = ''Error executing tool: Tool 2 failed''\<rparr>],
      True,
      \<lparr>world = (0, 2), api_calls = [],
       tool_calls = [(''test_tool_1'', [(''param1'', JString ''value1'')]),
                     (''test_tool_2'', [(''param2'', JString ''value2'')])]\<rparr>)"
    by (simp add: mock_tool_manager_def fresh_def)
  note t = tools_run_in_block_order [OF h]
  from t have a: "tool_calls \<lparr>world = (0 :: nat, 2 :: nat), api_calls = [],
       tool_calls = [(''test_tool_1'', [(''param1'', JString ''value1'')]),
                     (''test_tool_2'', [(''param2'', JString ''value2'')])]\<rparr>
   = tool_calls fresh @ map (\<lambda>(i, n, a). (n, a)) (tool_uses [Text ''Let me look.'', ?b1, ?b2])"
    by blast
  have b: "execute_tool_calls ?tm [Text ''Let me look.'', ?b1] ([], False, fresh)
   = ([\<lparr>result_type = ''tool_result'', tool_use_id = ''tool_1_id'',
        result_content = ''Tool 1 result''\<rparr>],
      True,
      \<lparr>world = (0, 1), api_calls = [],
       tool_calls = [(''test_tool_1'', [(''param1'', JString ''value1'')])]\<rparr>)"
    by (simp add: mock_tool_manager_def fresh_def)
  from h a b show ?thesis by blast
qed

subsection \<open>C4: one tool result for every tool-use block, sent before the next request\<close>

lemma single_tool_use_result:
  "tool_uses bs = [(i, n, a)] \<Longrightarrow> execute_tool_calls tm bs (rs, h, st) = (rs', h', st') \<Longrightarrow>
     rs' = rs @ [\<lparr>result_type = ''tool_result'', tool_use_id = i,
                  result_content =
                    (case fst (tm n a (world st)) of
                       Returned s \<Rightarrow> s
                     | Raised e \<Rightarrow> ''Error executing tool: '' @ e)\<rparr>]"
proof (induction bs arbitrary: rs h st)
  case Nil
  then show ?case by simp
next
  case (Cons b bs)
  show ?case
  proof (cases b)
    case (Text t)
    with Cons.prems Cons.IH [of rs h st] show ?thesis by simp
  next
    case (ToolUse i' n' a')
    with Cons.prems(1) have eq: "i' = i" "n' = n" "a' = a" and rest: "tool_uses bs = []"
      by simp_all
    obtain out w1 where t: "tm n a (world st) = (out, w1)"
      by (cases "tm n a (world st)") auto
    let ?r = "\<lparr>result_type = ''tool_result'', tool_use_id = i,
                  result_content =
                    (case out of
                       Returned s \<Rightarrow> s
                     | Raised e \<Rightarrow> ''Error executing tool: '' @ e)\<rparr>"
    from Cons.prems(2) ToolUse eq t have
      e: "execute_tool_calls tm bs
            (rs @ [?r], True, st\<lparr>world := w1, tool_calls := tool_calls st @ [(n, a)]\<rparr>)
          = (rs', h', st')"
      by simp
    from execute_tool_calls_log [OF e] rest have "rs' = rs @ [?r]" by auto
    with t show ?thesis by simp
  qed
qed

text \<open>
  C4: take any call of \<^verbatim>\<open>generate_response\<close>. When the first model response
  signals tool use and a tool manager is supplied, the Model Client calls after the
  first and the tool invocations of the whole call follow \<open>negotiation_trace\<close> from
  round 1: in every round the executor is invoked once for each tool-use block of the
  response the model returned last, in order and with that block's name and input, and
  the next Model Client call sends the transcript so far, the assistant message holding
  that response's content and one user message whose tool results carry the ids of
  those blocks, in order (no user message when there is no tool-use block); the blocks
  of the response to the last call are not run. Otherwise no tool is run. In particular,
  when the first response holds exactly one tool-use block and there is at least one
  round, the first tool invocation is that block's name and input, and the second
  request's transcript is the query, the assistant message and one user message with
  one result: that block's id with what the executor returned (or the error string).
\<close>

theorem every_tool_use_gets_one_result:
  assumes "generate_response self q h tls tmo R st = (res, st')"
  shows "\<exists>c0 cs tcs.
           api_calls st' = api_calls st @ c0 # cs \<and> tool_calls st' = tool_calls st @ tcs \<and>
           site c0 = InitialCall \<and>
           messages (params c0) = [\<lparr>role = ''user'', msg_content = Plain q\<rparr>] \<and>
           (case outcome c0 of
              Inl e \<Rightarrow> cs = [] \<and> tcs = []
            | Inr r \<Rightarrow>
                if stop_reason r = ''tool_use'' \<and> tmo \<noteq> None
                then negotiation_trace R tls 1 r [\<lparr>role = ''user'', msg_content = Plain q\<rparr>] cs tcs
                else cs = [] \<and> tcs = []) \<and>
           (\<forall>r w' tm i n a.
              client self (initial_params self q h tls) (world st) = (Inr r, w') \<and>
              stop_reason r = ''tool_use'' \<and> tmo = Some tm \<and> 1 \<le> R \<and>
              tool_uses (content r) = [(i, n, a)] \<longrightarrow>
                tcs \<noteq> [] \<and> hd tcs = (n, a) \<and> cs \<noteq> [] \<and>
                messages (params (hd cs)) =
                  [\<lparr>role = ''user'', msg_content = Plain q\<rparr>,
                   \<lparr>role = ''assistant'', msg_content = Blocks (content r)\<rparr>,
                   \<lparr>role = ''user'',
                    msg_content =
                      Results [\<lparr>result_type = ''tool_result'', tool_use_id = i,
                                result_content =
                                  (case fst (tm n a w') of
                                     Returned s \<Rightarrow> s
                                   | Raised e \<Rightarrow> ''Error executing tool: '' @ e)\<rparr>]\<rparr>])"
proof -
  from generate_response_trace [OF assms] obtain c0 cs tcs r0 where
    a: "api_calls st' = api_calls st @ c0 # cs" and t: "tool_calls st' = tool_calls st @ tcs" and
    c: "c0 = first_call self q h tls r0" and
    tr: "case outcome c0 of
              Inl e \<Rightarrow> cs = [] \<and> tcs = []
            | Inr r \<Rightarrow>
                if stop_reason r = ''tool_use'' \<and> tmo \<noteq> None
                then negotiation_trace R tls 1 r [\<lparr>role = ''user'', msg_content = Plain q\<rparr>] cs tcs
                else cs = [] \<and> tcs = []"
    by blast
  have one: "tcs \<noteq> [] \<and> hd tcs = (n, a) \<and> cs \<noteq> [] \<and>
                messages (params (hd cs)) =
                  [\<lparr>role = ''user'', msg_content = Plain q\<rparr>,
                   \<lparr>role = ''assistant'', msg_content = Blocks (content r)\<rparr>,
                   \<lparr>role = ''user'',
                    msg_content =
                      Results [\<lparr>result_type = ''tool_result'', tool_use_id = i,
                                result_content =
                                  (case fst (tm n a w') of
                                     Returned s \<Rightarrow> s
                                   | Raised e \<Rightarrow> ''Error executing tool: '' @ e)\<rparr>]\<rparr>]"
    if h: "client self (initial_params self q h tls) (world st) = (Inr r, w')"
      "stop_reason r = ''tool_use''" "tmo = Some tm" "1 \<le> R"
      "tool_uses (content r) = [(i, n, a)]"
    for r w' tm i n a
  proof -
    let ?st1 = "st\<lparr>world := w', api_calls := api_calls st @ [first_call self q h tls (Inr r)]\<rparr>"
    let ?msgs = "[\<lparr>role = ''user'', msg_content = Plain q\<rparr>]"
    from assms h(1,2,3) have
      run: "tool_loop self tm tls R (system_content h) r ?msgs 1 ?st1 = (res, st')"
      by (simp add: generate_response_loop)
    obtain results hc s1 where
      ex: "execute_tool_calls tm (content r) ([], False, ?st1) = (results, hc, s1)"
      by (cases "execute_tool_calls tm (content r) ([], False, ?st1)") auto
    from single_tool_use_result [OF h(5) ex] have
      res1: "results = [\<lparr>result_type = ''tool_result'', tool_use_id = i,
                         result_content =
                           (case fst (tm n a w') of
                              Returned s \<Rightarrow> s
                            | Raised e \<Rightarrow> ''Error executing tool: '' @ e)\<rparr>]"
      by simp
    from execute_tool_calls_log [OF ex] h(5) have
      tc1: "tool_calls s1 = tool_calls st @ [(n, a)]" by simp
    from tool_loop_first_round [OF h(4) run ex] obtain c1 rest nt where
      f: "api_calls st' = api_calls ?st1 @ c1 # rest"
         "tool_calls st' = tool_calls s1 @ nt"
         "messages (params c1) = round_messages ?msgs r results"
      by blast
    from f(1) a have "c0 # cs = first_call self q h tls (Inr r) # c1 # rest" by simp
    then have cs: "cs = c1 # rest" by simp
    from f(2) tc1 t have tcs: "tcs = (n, a) # nt" by simp
    from f(3) res1 have
      "messages (params c1) =
         [\<lparr>role = ''user'', msg_content = Plain q\<rparr>,
          \<lparr>role = ''assistant'', msg_content = Blocks (content r)\<rparr>,
          \<lparr>role = ''user'',
           msg_content =
             Results [\<lparr>result_type = ''tool_result'', tool_use_id = i,
                       result_content =
                         (case fst (tm n a w') of
                            Returned s \<Rightarrow> s
                          | Raised e \<Rightarrow> ''Error executing tool: '' @ e)\<rparr>]\<rparr>]"
      by (simp add: round_messages_def Let_def)
    with cs tcs show ?thesis by simp
  qed
  from c have "site c0 = InitialCall"
    and "messages (params c0) = [\<lparr>role = ''user'', msg_content = Plain q\<rparr>]" by simp_all
  with a t tr one show ?thesis by blast
qed

theorem every_tool_use_gets_one_result_witness:
  "client
     (test_generator
        [Inr (tool_use_response ''tool_1_id'' ''test_tool_1'' [(''param1'', JString ''value1'')]),
         Inr (tool_use_response ''tool_2_id'' ''test_tool_2'' [(''param2'', JString ''value2'')]),
         Inr (text_response ''Final response after sequential tool use'')])
     (initial_params
        (test_generator
           [Inr (tool_use_response ''tool_1_id'' ''test_tool_1'' [(''param1'', JString ''value1'')]),
            Inr (tool_use_response ''tool_2_id'' ''test_tool_2'' [(''param2'', JString ''value2'')]),
            Inr (text_response ''Final response after sequential tool use'')])
        ''Test query with sequential tools'' None (Some test_tools))
     (world fresh)
   = (Inr (tool_use_response ''tool_1_id'' ''test_tool_1'' [(''param1'', JString ''value1'')]),
      (1, 0)) \<and>
   stop_reason (tool_use_response ''tool_1_id'' ''test_tool_1'' [(''param1'', JString ''value1'')])
   = ''tool_use'' \<and>
   (1 :: int) \<le> 2 \<and>
   tool_uses (content
     (tool_use_response ''tool_1_id'' ''test_tool_1'' [(''param1'', JString ''value1'')]))
   = [(''tool_1_id'', ''test_tool_1'', [(''param1'', JString ''value1'')])] \<and>
   hd (tool_calls (snd (generate_response
      (test_generator
         [Inr (tool_use_response ''tool_1_id'' ''test_tool_1'' [(''param1'', JString ''value1'')]),
          Inr (tool_use_response ''tool_2_id'' ''test_tool_2'' [(''param2'', JString ''value2'')]),
          Inr (text_response ''Final response after sequential tool use'')])
      ''Test query with sequential tools'' None (Some test_tools)
      (Some (mock_tool_manager [Returned ''Tool 1 result'', Returned ''Tool 2 result'']))
      2 fresh)))
   = (''test_tool_1'', [(''param1'', JString ''value1'')]) \<and>
   tool_calls (snd (generate_response
      (test_generator
         [Inr (tool_use_response ''tool_1_id'' ''test_tool_1'' [(''param1'', JString ''value1'')]),
          Inr (tool_use_response ''tool_2_id'' ''test_tool_2'' [(''param2'', JString ''value2'')]),
          Inr (text_response ''Final response after sequential tool use'')])
      ''Test query with sequential tools'' None (Some test_tools)
      (Some (mock_tool_manager [Returned ''Tool 1 result'', Returned ''Tool 2 result'']))
      2 fresh))
   = [(''test_tool_1'', [(''param1'', JString ''value1'')]),
      (''test_tool_2'', [(''param2'', JString ''value2'')])] \<and>
   map (\<lambda>c. messages (params c)) (api_calls (snd (generate_response
      (test_generator
         [Inr (tool_use_response ''tool_1_id'' ''test_tool_1'' [(''param1'', JString ''value1'')]),
          Inr (tool_use_response ''tool_2_id'' ''test_tool_2'' [(''param2'', JString ''value2'')]),
          Inr (text_response ''Final response after sequential tool use'')])
      ''Test query with sequential tools'' None (Some test_tools)
      (Some (mock_tool_manager [Returned ''Tool 1 result'', Returned ''Tool 2 result'']))
      2 fresh)))
   = [[\<lparr>role = ''user'', msg_content = Plain ''Test query with sequential tools''\<rparr>],
      [\<lparr>role = ''user'', msg_content = Plain ''Test query with sequential tools''\<rparr>,
       \<lparr>role = ''assistant'',
        msg_content = Blocks [ToolUse ''tool_1_id'' ''test_tool_1'' [(''param1'', JString ''value1'')]]\<rparr>,
       \<lparr>role = ''user'',
        msg_content = Results [\<lparr>result_type = ''tool_result'', tool_use_id = ''tool_1_id'',
                                result_content = ''Tool 1 result''\<rparr>]\<rparr>],
      [\<lparr>role = ''user'', msg_content = Plain ''Test query with sequential tools''\<rparr>,
       \<lparr>role = ''assistant'',
        msg_content = Blocks [ToolUse ''tool_1_id'' ''test_tool_1'' [(''param1'', JString ''value1'')]]\<rparr>,
       \<lparr>role = ''user'',
        msg_content = Results [\<lparr>result_type = ''tool_result'', tool_use_id = ''tool_1_id'',
                                result_content = ''Tool 1 result''\<rparr>]\<rparr>,
       \<lparr>role = ''assistant'',
        msg_content = Blocks [ToolUse ''tool_2_id'' ''test_tool_2'' [(''param2'', JString ''value2'')]]\<rparr>,
       \<lparr>role = ''user'',
        msg_content = Results [\<lparr>result_type = ''tool_result'', tool_use_id = ''tool_2_id'',
                                result_content = ''Tool 2 result''\<rparr>]\<rparr>]] \<and>
   negotiation_trace 2 (Some test_tools) 1
     (tool_use_response ''tool_1_id'' ''test_tool_1'' [(''param1'', JString ''value1'')])
     [\<lparr>role = ''user'', msg_content = Plain ''Test query with sequential tools''\<rparr>]
     (tl (api_calls (snd (generate_response
        (test_generator
           [Inr (tool_use_response ''tool_1_id'' ''test_tool_1'' [(''param1'', JString ''value1'')]),
            Inr (tool_use_response ''tool_2_id'' ''test_tool_2'' [(''param2'', JString ''value2'')]),
            Inr (text_response ''Final response after sequential tool use'')])
        ''Test query with sequential tools'' None (Some test_tools)
        (Some (mock_tool_manager [Returned ''Tool 1 result'', Returned ''Tool 2 result'']))
        2 fresh))))
     (tool_calls (snd (generate_response
        (test_generator
           [Inr (tool_use_response ''tool_1_id'' ''test_tool_1'' [(''param1'', JString ''value1'')]),
            Inr (tool_use_response ''tool_2_id'' ''test_tool_2'' [(''param2'', JString ''value2'')]),
            Inr (text_response ''Final response after sequential tool use'')])
        ''Test query with sequential tools'' None (Some test_tools)
        (Some (mock_tool_manager [Returned ''Tool 1 result'', Returned ''Tool 2 result'']))
        2 fresh)))"
proof -
  let ?r1 = "tool_use_response ''tool_1_id'' ''test_tool_1'' [(''param1'', JString ''value1'')]"
  let ?g = "test_generator
         [Inr ?r1,
          Inr (tool_use_response ''tool_2_id'' ''test_tool_2'' [(''param2'', JString ''value2'')]),
          Inr (text_response ''Final response after sequential tool use'')]"
  let ?tm = "mock_tool_manager [Returned ''Tool 1 result'', Returned ''Tool 2 result'']"
  let ?run = "generate_response ?g ''Test query with sequential tools'' None (Some test_tools)
      (Some ?tm) 2 fresh"
  have h: "?run = (fst ?run, snd ?run)" by simp
  have c1: "client ?g (initial_params ?g ''Test query with sequential tools'' None (Some test_tools))
     (world fresh) = (Inr ?r1, (1, 0))"
    by (simp add: test_generator_def init_def mock_client_def fresh_def)
  have c2: "stop_reason ?r1 = ''tool_use''" by (simp add: tool_use_response_def)
  have c3: "(1 :: int) \<le> 2" by simp
  have c4: "tool_uses (content ?r1) = [(''tool_1_id'', ''test_tool_1'', [(''param1'', JString ''value1'')])]"
    by (simp add: tool_use_response_def)
  from every_tool_use_gets_one_result [OF h] obtain c0 cs tcs where
    ac: "api_calls (snd ?run) = api_calls fresh @ c0 # cs" and
    t: "tool_calls (snd ?run) = tool_calls fresh @ tcs" and
    tr: "case outcome c0 of
              Inl e \<Rightarrow> cs = [] \<and> tcs = []
            | Inr r \<Rightarrow>
                if stop_reason r = ''tool_use'' \<and> Some ?tm \<noteq> None
                then negotiation_trace 2 (Some test_tools) 1 r
                       [\<lparr>role = ''user'', msg_content = Plain ''Test query with sequential tools''\<rparr>]
                       cs tcs
                else cs = [] \<and> tcs = []" and
    o: "\<forall>r w' tm i n a.
              client ?g (initial_params ?g ''Test query with sequential tools'' None (Some test_tools))
                (world fresh) = (Inr r, w') \<and>
              stop_reason r = ''tool_use'' \<and> Some ?tm = Some tm \<and> (1 :: int) \<le> 2 \<and>
              tool_uses (content r) = [(i, n, a)] \<longrightarrow>
                tcs \<noteq> [] \<and> hd tcs = (n, a)"
    by blast
  from o c1 c2 c3 c4 have "hd tcs = (''test_tool_1'', [(''param1'', JString ''value1'')])"
    by blast
  with t have a: "hd (tool_calls (snd ?run)) = (''test_tool_1'', [(''param1'', JString ''value1'')])"
    by (simp add: fresh_def)
  have b: "tool_calls (snd ?run)
   = [(''test_tool_1'', [(''param1'', JString ''value1'')]),
      (''test_tool_2'', [(''param2'', JString ''value2'')])]"
    by (simp add: run_defs)
  have d: "map (\<lambda>c. messages (params c)) (api_calls (snd ?run))
   = [[\<lparr>role = ''user'', msg_content = Plain ''Test query with sequential tools''\<rparr>],
      [\<lparr>role = ''user'', msg_content = Plain ''Test query with sequential tools''\<rparr>,
       \<lparr>role = ''assistant'',
        msg_content = Blocks [ToolUse ''tool_1_id'' ''test_tool_1'' [(''param1'', JString ''value1'')]]\<rparr>,
       \<lparr>role = ''user'',
        msg_content = Results [\<lparr>result_type = ''tool_result'', tool_use_id = ''tool_1_id'',
                                result_content = ''Tool 1 result''\<rparr>]\<rparr>],
      [\<lparr>role = ''user'', msg_content = Plain ''Test query with sequential tools''\<rparr>,
       \<lparr>role = ''assistant'',
        msg_content = Blocks [ToolUse ''tool_1_id'' ''test_tool_1'' [(''param1'', JString ''value1'')]]\<rparr>,
       \<lparr>role = ''user'',
        msg_content = Results [\<lparr>result_type = ''tool_result'', tool_use_id = ''tool_1_id'',
                                result_content = ''Tool 1 result''\<rparr>]\<rparr>,
       \<lparr>role = ''assistant'',
        msg_content = Blocks [ToolUse ''tool_2_id'' ''test_tool_2'' [(''param2'', JString ''value2'')]]\<rparr>,
       \<lparr>role = ''user'',
        msg_content = Results [\<lparr>result_type = ''tool_result'', tool_use_id = ''tool_2_id'',
                                result_content = ''Tool 2 result''\<rparr>]\<rparr>]]"
    by (simp add: run_defs)
  have oc: "outcome (hd (api_calls (snd ?run))) = Inr ?r1"
    by (simp add: run_defs)
  from ac have hd0: "hd (api_calls (snd ?run)) = c0" and tl0: "tl (api_calls (snd ?run)) = cs"
    by (simp_all add: fresh_def)
  from t have tc0: "tool_calls (snd ?run) = tcs" by (simp add: fresh_def)
  from tr oc c2 have e: "negotiation_trace 2 (Some test_tools) 1 ?r1
       [\<lparr>role = ''user'', msg_content = Plain ''Test query with sequential tools''\<rparr>]
       (tl (api_calls (snd ?run))) (tool_calls (snd ?run))"
    unfolding hd0 [symmetric] tl0 tc0 by (simp add: hd0)
  from c1 c2 c3 c4 a b d e show ?thesis by blast
qed

subsection \<open>C3: an exception of the tool executor does not escape\<close>




subsection \<open>C8: determinism\<close>

text \<open>
  C8: with a Model Client and a tool executor that are functions of their inputs, two
  calls of \<^verbatim>\<open>generate_response\<close> with the same arguments, from any two states (the
  second call may follow the first), return the same result, issue the same sequence of
  requests (each with the same transcript, system string and tools, and the same
  outcome) and run the same sequence of tool invocations.
\<close>

theorem generate_response_deterministic:
  assumes "stateless_client (client self)"
    and "case tmo of None \<Rightarrow> True | Some tm \<Rightarrow> stateless_executor tm"
  shows "\<exists>na nt.
     fst (generate_response self q h tls tmo R sa) =
       fst (generate_response self q h tls tmo R sb) \<and>
     api_calls (snd (generate_response self q h tls tmo R sa)) = api_calls sa @ na \<and>
     api_calls (snd (generate_response self q h tls tmo R sb)) = api_calls sb @ na \<and>
     tool_calls (snd (generate_response self q h tls tmo R sa)) = tool_calls sa @ nt \<and>
     tool_calls (snd (generate_response self q h tls tmo R sb)) = tool_calls sb @ nt"
proof -
  let ?p = "initial_params self q h tls"
  obtain ra wa where ca: "client self ?p (world sa) = (ra, wa)"
    by (cases "client self ?p (world sa)") auto
  obtain rb wb where cb: "client self ?p (world sb) = (rb, wb)"
    by (cases "client self ?p (world sb)") auto
  from assms(1) have "fst (client self ?p (world sa)) = fst (client self ?p (world sb))"
    unfolding stateless_client_def by blast
  with ca cb have eq: "rb = ra" by simp
  let ?c0 = "first_call self q h tls ra"
  let ?sa1 = "sa\<lparr>world := wa, api_calls := api_calls sa @ [?c0]\<rparr>"
  let ?sb1 = "sb\<lparr>world := wb, api_calls := api_calls sb @ [?c0]\<rparr>"
  show ?thesis
  proof (cases ra)
    case (Inl e)
    with ca cb eq show ?thesis
      by (intro exI [of _ "[?c0]"] exI [of _ "[]"]) (simp add: generate_response_failed)
  next
    case (Inr r)
    show ?thesis
    proof (cases "stop_reason r \<noteq> ''tool_use'' \<or> tmo = None")
      case True
      with ca cb eq Inr show ?thesis
        by (intro exI [of _ "[?c0]"] exI [of _ "[]"]) (simp add: generate_response_direct)
    next
      case False
      then obtain tm where tm: "tmo = Some tm" and s: "stop_reason r = ''tool_use''" by auto
      from assms(2) tm have se: "stateless_executor tm" by simp
      let ?loop = "tool_loop self tm tls R (system_content h) r
                     [\<lparr>role = ''user'', msg_content = Plain q\<rparr>] 1"
      from tool_loop_deterministic [OF assms(1) se, of tls R "system_content h" r
          "[\<lparr>role = ''user'', msg_content = Plain q\<rparr>]" 1 ?sa1 ?sb1]
      obtain na nt where
        d: "fst (?loop ?sa1) = fst (?loop ?sb1)"
           "api_calls (snd (?loop ?sa1)) = api_calls ?sa1 @ na"
           "api_calls (snd (?loop ?sb1)) = api_calls ?sb1 @ na"
           "tool_calls (snd (?loop ?sa1)) = tool_calls ?sa1 @ nt"
           "tool_calls (snd (?loop ?sb1)) = tool_calls ?sb1 @ nt"
        by blast
      from ca Inr s tm have ga: "generate_response self q h tls tmo R sa = ?loop ?sa1"
        by (simp add: generate_response_loop)
      from cb eq Inr s tm have gb: "generate_response self q h tls tmo R sb = ?loop ?sb1"
        by (simp add: generate_response_loop)
      from d show ?thesis unfolding ga gb
        by (intro exI [of _ "?c0 # na"] exI [of _ nt]) simp
    qed
  qed
qed

theorem generate_response_deterministic_witness:
  "stateless_client (client eager_generator) \<and>
   (case Some failing_tool_manager of None \<Rightarrow> True | Some tm \<Rightarrow> stateless_executor tm) \<and>
   fst (generate_response eager_generator ''Test query with tool error'' None (Some test_tools)
          (Some failing_tool_manager) 2
          (snd (generate_response eager_generator ''Test query with tool error'' None
                  (Some test_tools) (Some failing_tool_manager) 2 fresh)))
     = fst (generate_response eager_generator ''Test query with tool error'' None (Some test_tools)
          (Some failing_tool_manager) 2 fresh) \<and>
   api_calls (snd (generate_response eager_generator ''Test query with tool error'' None
          (Some test_tools) (Some failing_tool_manager) 2
          (snd (generate_response eager_generator ''Test query with tool error'' None
                  (Some test_tools) (Some failing_tool_manager) 2 fresh))))
     = api_calls (snd (generate_response eager_generator ''Test query with tool error'' None
                  (Some test_tools) (Some failing_tool_manager) 2 fresh)) @
       api_calls (snd (generate_response eager_generator ''Test query with tool error'' None
                  (Some test_tools) (Some failing_tool_manager) 2 fresh)) \<and>
   length (api_calls (snd (generate_response eager_generator ''Test query with tool error'' None
                  (Some test_tools) (Some failing_tool_manager) 2 fresh))) = 3 \<and>
   tool_calls (snd (generate_response eager_generator ''Test query with tool error'' None
                  (Some test_tools) (Some failing_tool_manager) 2 fresh))
     = [(''test_tool_1'', [(''param'', JString ''value'')]),
        (''test_tool_1'', [(''param'', JString ''value'')])]"
proof -
  let ?gr = "generate_response eager_generator ''Test query with tool error'' None
     (Some test_tools) (Some failing_tool_manager) 2"
  have h2: "case Some failing_tool_manager of None \<Rightarrow> True | Some tm \<Rightarrow> stateless_executor tm"
    by (simp add: failing_tool_manager_stateless)
  from generate_response_deterministic [OF eager_client_stateless h2,
      where q = "''Test query with tool error''" and h = None and tls = "Some test_tools"
        and R = 2 and sa = fresh and sb = "snd (?gr fresh)"]
  obtain na nt where
    d: "fst (?gr fresh) = fst (?gr (snd (?gr fresh)))"
       "api_calls (snd (?gr fresh)) = api_calls fresh @ na"
       "api_calls (snd (?gr (snd (?gr fresh)))) = api_calls (snd (?gr fresh)) @ na"
    by blast
  from d(2) have "na = api_calls (snd (?gr fresh))" by (simp add: fresh_def)
  with d have a: "fst (?gr (snd (?gr fresh))) = fst (?gr fresh)"
    and b: "api_calls (snd (?gr (snd (?gr fresh))))
              = api_calls (snd (?gr fresh)) @ api_calls (snd (?gr fresh))"
    by simp_all
  have c: "length (api_calls (snd (?gr fresh))) = 3"
    by (simp add: run_defs)
  have e: "tool_calls (snd (?gr fresh))
     = [(''test_tool_1'', [(''param'', JString ''value'')]),
        (''test_tool_1'', [(''param'', JString ''value'')])]"
    by (simp add: run_defs)
  from eager_client_stateless h2 a b c e show ?thesis by blast
qed

end
